theory Spec2Isabelle
  imports Main
begin

section \<open>Reading-position tracking of the Reader component\<close>

text \<open>
  A shallow embedding of the pagination and position-tracking handlers that
  \<^verbatim>\<open>components/Reader.tsx\<close> registers on the epub.js rendition: the coalesced page update
  (\<^verbatim>\<open>updatePageNonBlocking\<close>), the transform pagination (\<^verbatim>\<open>applyPageTransform\<close>,
  \<^verbatim>\<open>goToNextPage\<close>, \<^verbatim>\<open>goToPrevPage\<close>), the \<^verbatim>\<open>relocated\<close> handler, the tap
  \<^verbatim>\<open>clickHandler\<close> and the chapter index build.  React state and refs become the fields
  of one record that every handler takes and returns; a handler that logs or issues a
  renderer command returns the stages logged or the command beside the new state; a call
  into epub.js that may throw returns an \<open>outcome\<close>.

  Location indices, page numbers, pixel widths and timestamps are JavaScript numbers that
  hold integers here; they are modelled as \<open>int\<close>, a \<^verbatim>\<open>number | null\<close> as \<open>int option\<close>.
  A \<^verbatim>\<open>NaN\<close> index is not modelled.  Console output other than the stages of
  \<^verbatim>\<open>logPageIndicator\<close>, the page indicator's timer and the total page count are left
  out: no handler below reads them.
\<close>

subsection \<open>Data\<close>

text \<open>One entry of \<^verbatim>\<open>chapterLocationsRef.current\<close>.\<close>

record chapter_range =
  href :: string
  label :: string
  startLocationIndex :: int
  endLocationIndex :: int

text \<open>
  The component's state: the \<^verbatim>\<open>useState\<close> cells the handlers write, the refs, and the part
  of the rendering surface the handlers read and write.  \<open>frameCallbacks\<close> counts the
  callbacks handed to \<^verbatim>\<open>requestAnimationFrame\<close> and not yet run.  \<open>renditionRef\<close> tells
  whether \<^verbatim>\<open>renditionRef.current\<close> is set; \<open>viewTransform\<close> is \<open>None\<close> while the manager,
  its first view or the view's document (with its body) is missing, and otherwise holds
  the offset \<open>x\<close> of the document element's \<^verbatim>\<open>translateX(-x px)\<close>; \<open>containerClientWidth\<close>
  is \<^verbatim>\<open>manager.container.clientWidth\<close>, \<open>None\<close> while there is no manager container.
\<close>

record reader =
  currentLocation :: "string option"
  currentPage :: int
  pagesLeftInChapter :: "int option"
  currentChapterName :: string
  pendingPageRef :: "int option"
  pageUpdateScheduledRef :: bool
  frameCallbacks :: nat
  isChatOpenRef :: bool
  lastNavigationTimeRef :: int
  currentLocationIndexRef :: int
  isNavigatingRef :: bool
  lastRequestedLocationIndexRef :: "int option"
  currentStartLocationRef :: "int option"
  currentEndLocationRef :: "int option"
  lastRelocatedStartRef :: "int option"
  lastRelocatedEndRef :: "int option"
  currentDisplayedPageRef :: "int option"
  currentDisplayedTotalRef :: "int option"
  chapterLocationsRef :: "chapter_range list"
  sectionPageRef :: int
  sectionTotalPagesRef :: int
  containerWidthRef :: int
  sectionStartGlobalPageRef :: int
  renditionRef :: bool
  viewTransform :: "int option"
  containerClientWidth :: "int option"

text \<open>The values the hooks are initialised with, before any rendition exists.\<close>

definition initialReader :: reader where
  "initialReader =
     \<lparr> currentLocation = Some [], currentPage = 1, pagesLeftInChapter = None,
       currentChapterName = [], pendingPageRef = None, pageUpdateScheduledRef = False,
       frameCallbacks = 0, isChatOpenRef = False, lastNavigationTimeRef = 0,
       currentLocationIndexRef = 0, isNavigatingRef = False,
       lastRequestedLocationIndexRef = None, currentStartLocationRef = None,
       currentEndLocationRef = None, lastRelocatedStartRef = None,
       lastRelocatedEndRef = None, currentDisplayedPageRef = None,
       currentDisplayedTotalRef = None, chapterLocationsRef = [], sectionPageRef = 1,
       sectionTotalPagesRef = 1, containerWidthRef = 0, sectionStartGlobalPageRef = 1,
       renditionRef = False, viewTransform = None, containerClientWidth = None \<rparr>"

subsection \<open>Coalesced page update\<close>

text \<open>
  \<^verbatim>\<open>updatePageNonBlocking\<close>: store the page, and request one animation frame unless one is
  already requested.
\<close>

definition updatePageNonBlocking :: "int \<Rightarrow> reader \<Rightarrow> reader" where
  "updatePageNonBlocking newPage s =
     (let s1 = s\<lparr>pendingPageRef := Some newPage\<rparr>
      in if \<not> pageUpdateScheduledRef s1
         then s1\<lparr>pageUpdateScheduledRef := True, frameCallbacks := Suc (frameCallbacks s1)\<rparr>
         else s1)"

text \<open>
  The callback given to \<^verbatim>\<open>requestAnimationFrame\<close>.  Beside the new state it returns the
  argument of its \<^verbatim>\<open>setCurrentPage\<close> call, if it makes one.
\<close>

definition pageUpdateCallback :: "reader \<Rightarrow> reader \<times> int option" where
  "pageUpdateCallback s =
     (case pendingPageRef s of
        Some p \<Rightarrow> (s\<lparr>currentPage := p, pendingPageRef := None, pageUpdateScheduledRef := False\<rparr>, Some p)
      | None \<Rightarrow> (s\<lparr>pageUpdateScheduledRef := False\<rparr>, None))"

text \<open>
  A paint opportunity runs the queued callbacks in turn; the list is the sequence of values
  \<^verbatim>\<open>setCurrentPage\<close> was called with during the frame.
\<close>

fun runCallbacks :: "nat \<Rightarrow> reader \<Rightarrow> reader \<times> int list" where
  "runCallbacks 0 s = (s, [])"
| "runCallbacks (Suc n) s =
     (let (s1, applied) = pageUpdateCallback s;
          (s2, rest) = runCallbacks n s1
      in (s2, (case applied of Some p \<Rightarrow> [p] | None \<Rightarrow> []) @ rest))"

definition animationFrame :: "reader \<Rightarrow> reader \<times> int list" where
  "animationFrame s = runCallbacks (frameCallbacks s) (s\<lparr>frameCallbacks := 0\<rparr>)"

text \<open>Submitting a sequence of page numbers, in order.\<close>

fun updatePages :: "int list \<Rightarrow> reader \<Rightarrow> reader" where
  "updatePages [] s = s"
| "updatePages (p # ps) s = updatePages ps (updatePageNonBlocking p s)"

text \<open>
  Exactly the frames requested by a set flag are queued.  The initial state has this
  property and every handler below keeps it.
\<close>

definition frameQueueOk :: "reader \<Rightarrow> bool" where
  "frameQueueOk s = (frameCallbacks s = (if pageUpdateScheduledRef s then 1 else 0))"

subsection \<open>Transform pagination\<close>

text \<open>
  \<^verbatim>\<open>applyPageTransform\<close> returns early while the rendition, the manager, the view or its
  document is missing, before it writes \<^verbatim>\<open>sectionPageRef\<close>.  The page width is
  \<^verbatim>\<open>containerWidthRef.current || manager.container?.clientWidth || 440\<close>.
\<close>

definition pageWidth :: "reader \<Rightarrow> int" where
  "pageWidth s =
     (if containerWidthRef s \<noteq> 0 then containerWidthRef s
      else case containerClientWidth s of
             Some w \<Rightarrow> (if w \<noteq> 0 then w else 440)
           | None \<Rightarrow> 440)"

definition applyPageTransform :: "int \<Rightarrow> reader \<Rightarrow> reader" where
  "applyPageTransform pageNum s =
     (if \<not> renditionRef s then s
      else case viewTransform s of
             None \<Rightarrow> s
           | Some _ \<Rightarrow>
               (let offset = (pageNum - 1) * pageWidth s
                in s\<lparr>viewTransform := Some offset, sectionPageRef := pageNum\<rparr>))"

text \<open>The renderer commands a handler may issue.\<close>

datatype nav_call = RenditionNext | RenditionPrev

text \<open>
  \<^verbatim>\<open>goToNextPage\<close>: the new state and the renderer command issued, if any.  The promise of
  \<^verbatim>\<open>rendition.next()\<close> resolves later; its \<^verbatim>\<open>then\<close> callback is \<open>nextResolved\<close>.
\<close>

definition goToNextPage :: "reader \<Rightarrow> reader \<times> nav_call option" where
  "goToNextPage s =
     (if \<not> renditionRef s then (s, None)
      else
        let currentPage = sectionPageRef s;
            totalPages = sectionTotalPagesRef s
        in if currentPage < totalPages then
             (let newPage = currentPage + 1;
                  s1 = applyPageTransform newPage s;
                  newGlobalPage = sectionStartGlobalPageRef s1 + (newPage - 1)
              in (updatePageNonBlocking newGlobalPage s1, None))
           else (s, Some RenditionNext))"

definition nextResolved :: "reader \<Rightarrow> reader" where
  "nextResolved s = applyPageTransform 1 (s\<lparr>sectionPageRef := 1\<rparr>)"

text \<open>A run of \<open>n\<close> presses of the next-page control, dropping the commands issued.\<close>

fun goToNextPageTimes :: "nat \<Rightarrow> reader \<Rightarrow> reader" where
  "goToNextPageTimes 0 s = s"
| "goToNextPageTimes (Suc n) s = goToNextPageTimes n (fst (goToNextPage s))"

subsection \<open>The book and the relocation event\<close>

text \<open>
  A call into epub.js either throws or returns.  \<^verbatim>\<open>book.locations.locationFromCfi\<close>
  returns a number, or something that is not one (\<^verbatim>\<open>NaN\<close>, \<^verbatim>\<open>undefined\<close>, \<^verbatim>\<open>null\<close>): the
  latter is \<open>Returns None\<close>.
\<close>

datatype 'a outcome = Throws | Returns 'a

text \<open>
  What the handlers ask of the book and of the component's props: the length of the
  location table (0 until it is generated), the reverse lookup of a fragment identifier,
  \<^verbatim>\<open>spine.get(href)\<close> as the \<^verbatim>\<open>cfiBase\<close> of the item found, and whether the
  \<^verbatim>\<open>onLocationChange\<close> prop is given.
\<close>

record env =
  locationsLength :: int
  locationFromCfi :: "string \<Rightarrow> int option outcome"
  spineGet :: "string \<Rightarrow> string option"
  onLocationChange :: bool

text \<open>
  The payload of \<^verbatim>\<open>relocated\<close>: \<^verbatim>\<open>loc.start\<close> and \<^verbatim>\<open>loc.end\<close>, each with an optional
  fragment identifier, an optional location index (present when \<^verbatim>\<open>typeof\<close> says
  \<^verbatim>\<open>'number'\<close>) and the optional \<^verbatim>\<open>displayed\<close> page counter.
\<close>

record displayed_info =
  displayed_page :: "int option"
  displayed_total :: "int option"

record endpoint =
  cfi :: "string option"
  location :: "int option"
  displayed :: "displayed_info option"

record reloc =
  loc_start :: "endpoint option"
  loc_end :: "endpoint option"

text \<open>The stages written by \<^verbatim>\<open>logPageIndicator\<close>, and the error report of the chapter build.\<close>

datatype stage =
    RELOCATED_BEFORE_SET_CURRENT_LOCATION
  | RELOCATED_AFTER_SET_CURRENT_LOCATION
  | RELOCATED_BEFORE_ON_LOCATION_CHANGE
  | RELOCATED_AFTER_ON_LOCATION_CHANGE
  | RELOCATED_PAGE_INFO
  | RELOCATED_STUCK_DETECTED
  | RELOCATED_BEFORE_SET_PAGE
  | RELOCATED_AFTER_SET_PAGE
  | CHAPTER_PROGRESS
  | RELOCATED_EVENT_COMPLETE
  | RELOCATED_EVENT_ERROR
  | CHAPTER_LOCATIONS_BUILT
  | CHAPTERS_ERROR_BUILDING

subsection \<open>The relocated handler\<close>

text \<open>
  The handler's locals \<^verbatim>\<open>startLocationIndex\<close> and \<^verbatim>\<open>endLocationIndex\<close> are written
  \<open>startIndex\<close> and \<open>endIndex\<close> below, the former names being fields of a chapter range.

  \<^verbatim>\<open>if (startCfi) { const n = book.locations.locationFromCfi(startCfi); ... }\<close>: an absent
  or empty identifier is not looked up.
\<close>

definition deriveFromCfi :: "env \<Rightarrow> string option \<Rightarrow> int option outcome" where
  "deriveFromCfi b c =
     (case c of
        None \<Rightarrow> Returns None
      | Some x \<Rightarrow> if x = [] then Returns None else locationFromCfi b x)"

text \<open>Primary source, then the index derived from the identifier.\<close>

definition resolveStart :: "endpoint \<Rightarrow> int option \<Rightarrow> int option" where
  "resolveStart st derivedStartFromCfi =
     (case location st of
        Some n \<Rightarrow> Some n
      | None \<Rightarrow> derivedStartFromCfi)"

text \<open>The same for the end; \<^emph>\<open>if end is still null, treat it as the same as start\<close>.\<close>

definition resolveEnd :: "endpoint option \<Rightarrow> int option \<Rightarrow> int option \<Rightarrow> int option" where
  "resolveEnd en derivedEndFromCfi startIndex =
     (let e0 = (case en of Some e \<Rightarrow> location e | None \<Rightarrow> None);
          e1 = (case e0 of Some n \<Rightarrow> Some n | None \<Rightarrow> derivedEndFromCfi)
      in case e1 of Some n \<Rightarrow> Some n | None \<Rightarrow> startIndex)"

text \<open>The condition under which \<^verbatim>\<open>RELOCATED_STUCK_DETECTED\<close> is logged.\<close>

definition stuckDetected :: "reader \<Rightarrow> int option \<Rightarrow> int option \<Rightarrow> bool" where
  "stuckDetected s startIndex endIndex =
     (startIndex \<noteq> None \<and> endIndex \<noteq> None \<and>
      lastRelocatedStartRef s \<noteq> None \<and> lastRelocatedEndRef s \<noteq> None \<and>
      lastRelocatedStartRef s = startIndex \<and>
      lastRelocatedEndRef s = endIndex \<and>
      (case lastRequestedLocationIndexRef s of
         None \<Rightarrow> False
       | Some r \<Rightarrow> (case endIndex of None \<Rightarrow> False | Some e \<Rightarrow> r > e)))"

text \<open>
  The block run when \<^verbatim>\<open>startDisplayed.page\<close> and \<^verbatim>\<open>startDisplayed.total\<close> are numbers:
  the section state is reset and the transform cleared.
\<close>

definition syncSection :: "endpoint \<Rightarrow> int option \<Rightarrow> reader \<Rightarrow> reader" where
  "syncSection st startIndex s =
     (case displayed st of
        None \<Rightarrow> s
      | Some d \<Rightarrow>
         (case displayed_page d of
            None \<Rightarrow> s
          | Some p \<Rightarrow>
             (case displayed_total d of
                None \<Rightarrow> s
              | Some t \<Rightarrow>
                 (let s1 = s\<lparr>currentDisplayedPageRef := Some p,
                             currentDisplayedTotalRef := Some t,
                             sectionTotalPagesRef := t,
                             sectionPageRef := 1\<rparr>;
                      s2 = (case startIndex of
                              Some a \<Rightarrow> if a \<ge> 0 then s1\<lparr>sectionStartGlobalPageRef := a + 1\<rparr> else s1
                            | None \<Rightarrow> s1);
                      s3 = (case containerClientWidth s2 of
                              Some w \<Rightarrow> s2\<lparr>containerWidthRef := w\<rparr>
                            | None \<Rightarrow> s2)
                  in case viewTransform s3 of
                       Some _ \<Rightarrow> s3\<lparr>viewTransform := Some 0\<rparr>
                     | None \<Rightarrow> s3))))"

text \<open>Sync of the viewport refs used by tap navigation.\<close>

definition syncViewport :: "int option \<Rightarrow> int option \<Rightarrow> reader \<Rightarrow> reader" where
  "syncViewport startIndex endIndex s =
     (let s1 = (case startIndex of
                  Some a \<Rightarrow> if a \<ge> 0
                            then s\<lparr>currentStartLocationRef := Some a, currentLocationIndexRef := a\<rparr>
                            else s
                | None \<Rightarrow> s)
      in case endIndex of
           Some e \<Rightarrow> if e \<ge> 0 then s1\<lparr>currentEndLocationRef := Some e\<rparr> else s1
         | None \<Rightarrow> s1)"

text \<open>The page number shown for a start index, handed to the coalesced update.\<close>

definition submitPage :: "int option \<Rightarrow> reader \<Rightarrow> reader \<times> stage list" where
  "submitPage startIndex s =
     (case startIndex of
        Some a \<Rightarrow>
          if a \<ge> 0
          then (let pageNum = max 1 (a + 1)
                in (updatePageNonBlocking pageNum s,
                    [RELOCATED_BEFORE_SET_PAGE, RELOCATED_AFTER_SET_PAGE]))
          else (s, [])
      | None \<Rightarrow> (s, []))"

text \<open>The loop over \<^verbatim>\<open>chapters\<close> with its \<^verbatim>\<open>break\<close>.\<close>

fun findChapter :: "chapter_range list \<Rightarrow> int \<Rightarrow> chapter_range option" where
  "findChapter [] i = None"
| "findChapter (c # cs) i =
     (if i \<ge> startLocationIndex c \<and> i \<le> endLocationIndex c then Some c
      else findChapter cs i)"

definition chapterProgress :: "int option \<Rightarrow> reader \<Rightarrow> reader \<times> stage list" where
  "chapterProgress effectiveLocationIndex s =
     (let chapters = chapterLocationsRef s
      in case effectiveLocationIndex of
           None \<Rightarrow> (s, [])
         | Some i \<Rightarrow>
            if chapters = [] then (s, [])
            else (case findChapter chapters i of
                    Some currentChapter \<Rightarrow>
                      (let pagesLeft = endLocationIndex currentChapter - i
                       in (s\<lparr>pagesLeftInChapter := Some (max 0 pagesLeft),
                             currentChapterName := label currentChapter\<rparr>,
                           [CHAPTER_PROGRESS]))
                  | None \<Rightarrow> (s\<lparr>pagesLeftInChapter := None, currentChapterName := []\<rparr>, [])))"

text \<open>
  Everything inside \<^verbatim>\<open>if (book.locations && book.locations.length() > 0)\<close> that follows the
  two lookups: first for indices already resolved, then with the resolution.
\<close>

definition relocatedRange ::
  "endpoint \<Rightarrow> int option \<Rightarrow> int option \<Rightarrow> reader \<Rightarrow> reader \<times> stage list" where
  "relocatedRange st startIndex endIndex s =
     (let lg1 = RELOCATED_PAGE_INFO #
                (if stuckDetected s startIndex endIndex
                 then [RELOCATED_STUCK_DETECTED] else []);
          s1 = s\<lparr>lastRelocatedStartRef := startIndex,
                  lastRelocatedEndRef := endIndex\<rparr>;
          s2 = syncSection st startIndex s1;
          s3 = syncViewport startIndex endIndex s2;
          (s4, lg2) = submitPage startIndex s3;
          (s5, lg3) = chapterProgress startIndex s4
      in (s5, lg1 @ lg2 @ lg3))"

definition relocatedPage ::
  "endpoint \<Rightarrow> endpoint option \<Rightarrow> int option \<Rightarrow> int option \<Rightarrow> reader \<Rightarrow> reader \<times> stage list" where
  "relocatedPage st en derivedStartFromCfi derivedEndFromCfi s =
     (let startIndex = resolveStart st derivedStartFromCfi;
          endIndex = resolveEnd en derivedEndFromCfi startIndex
      in relocatedRange st startIndex endIndex s)"

text \<open>
  The handler with its \<^verbatim>\<open>try\<close>/\<^verbatim>\<open>catch\<close>; \<open>endCfi\<close> is \<^verbatim>\<open>loc?.end?.cfi\<close>.
  Reading \<^verbatim>\<open>loc.start.cfi\<close> throws when \<^verbatim>\<open>loc.start\<close> is missing; a lookup may throw;
  the \<^verbatim>\<open>catch\<close> logs \<^verbatim>\<open>RELOCATED_EVENT_ERROR\<close> and returns.  The state returned is
  the one reached when the exception was thrown: \<^verbatim>\<open>setCurrentLocation(cfi)\<close> and the
  call of \<^verbatim>\<open>onLocationChange\<close> come first in the \<^verbatim>\<open>try\<close> block.
\<close>

definition endCfi :: "reloc \<Rightarrow> string option" where
  "endCfi loc = (case loc_end loc of Some e \<Rightarrow> cfi e | None \<Rightarrow> None)"

definition relocated :: "env \<Rightarrow> reloc \<Rightarrow> reader \<Rightarrow> reader \<times> stage list" where
  "relocated b loc s =
     (case loc_start loc of
        None \<Rightarrow> (s, [RELOCATED_EVENT_ERROR])
      | Some st \<Rightarrow>
         (let s1 = s\<lparr>currentLocation := cfi st\<rparr>;
              lg1 = [RELOCATED_BEFORE_SET_CURRENT_LOCATION, RELOCATED_AFTER_SET_CURRENT_LOCATION] @
                    (if onLocationChange b
                     then [RELOCATED_BEFORE_ON_LOCATION_CHANGE, RELOCATED_AFTER_ON_LOCATION_CHANGE]
                     else [])
          in if locationsLength b > 0 then
               (case deriveFromCfi b (cfi st) of
                  Throws \<Rightarrow> (s1, lg1 @ [RELOCATED_EVENT_ERROR])
                | Returns derivedStartFromCfi \<Rightarrow>
                   (case deriveFromCfi b (endCfi loc) of
                      Throws \<Rightarrow> (s1, lg1 @ [RELOCATED_EVENT_ERROR])
                    | Returns derivedEndFromCfi \<Rightarrow>
                       (let (s2, lg2) = relocatedPage st (loc_end loc) derivedStartFromCfi
                                          derivedEndFromCfi s1
                        in (s2, lg1 @ lg2 @ [RELOCATED_EVENT_COMPLETE]))))
             else (s1, lg1 @ [RELOCATED_EVENT_COMPLETE])))"

text \<open>
  The indices the handler resolves for an event, when both lookups return; \<open>None\<close> when
  \<^verbatim>\<open>loc.start\<close> is missing or a lookup throws.
\<close>

definition resolvedRange :: "env \<Rightarrow> reloc \<Rightarrow> (int option \<times> int option) option" where
  "resolvedRange b loc =
     (case loc_start loc of
        None \<Rightarrow> None
      | Some st \<Rightarrow>
         (case deriveFromCfi b (cfi st) of
            Throws \<Rightarrow> None
          | Returns ds \<Rightarrow>
             (case deriveFromCfi b (endCfi loc) of
                Throws \<Rightarrow> None
              | Returns de \<Rightarrow>
                 (let a = resolveStart st ds
                  in Some (a, resolveEnd (loc_end loc) de a)))))"

subsection \<open>Tap navigation\<close>

text \<open>
  A click delivered to \<^verbatim>\<open>clickHandler\<close>: whether the target lies inside an anchor, the
  trimmed text of the selection in the tapped document, the value of \<^verbatim>\<open>Date.now()\<close>, the
  tap's \<^verbatim>\<open>clientX\<close> and \<^verbatim>\<open>window.innerWidth\<close>.
\<close>

record tap =
  onLink :: bool
  selectionText :: string
  now :: int
  clientX :: int
  innerWidth :: int

text \<open>
  \<^verbatim>\<open>tapPercent = tapX / viewportWidth\<close> compared with \<open>k / 100\<close>, without the division.
  For a zero width the quotient is an infinity or \<^verbatim>\<open>NaN\<close>, and a comparison with
  \<^verbatim>\<open>NaN\<close> is false.
\<close>

definition percentGe :: "int \<Rightarrow> int \<Rightarrow> int \<Rightarrow> bool" where
  "percentGe x w k =
     (if w > 0 then 100 * x \<ge> k * w else if w < 0 then 100 * x \<le> k * w else x > 0)"

definition percentLe :: "int \<Rightarrow> int \<Rightarrow> int \<Rightarrow> bool" where
  "percentLe x w k =
     (if w > 0 then 100 * x \<le> k * w else if w < 0 then 100 * x \<ge> k * w else x < 0)"

definition percentLess :: "int \<Rightarrow> int \<Rightarrow> int \<Rightarrow> bool" where
  "percentLess x w k =
     (if w > 0 then 100 * x < k * w else if w < 0 then 100 * x > k * w else x < 0)"

definition centerTap :: "tap \<Rightarrow> bool" where
  "centerTap e = (percentGe (clientX e) (innerWidth e) 35 \<and> percentLe (clientX e) (innerWidth e) 65)"

definition direction :: "tap \<Rightarrow> nav_call" where
  "direction e = (if percentLess (clientX e) (innerWidth e) 35 then RenditionPrev else RenditionNext)"

text \<open>
  \<^verbatim>\<open>clickHandler\<close>, with its checks in the order of the source: link, open chat, active
  selection, debounce, navigation in progress, center tap.  The result is the new state
  and the navigation command issued, if the tap is accepted.
\<close>

definition clickHandler :: "tap \<Rightarrow> reader \<Rightarrow> reader \<times> nav_call option" where
  "clickHandler e s =
     (if onLink e then (s, None)
      else if isChatOpenRef s then (s, None)
      else if selectionText e \<noteq> [] then (s, None)
      else
        let timeSinceLastNav = now e - lastNavigationTimeRef s
        in if timeSinceLastNav < 200 then (s, None)
           else if isNavigatingRef s then (s, None)
           else if centerTap e then (s, None)
           else (s\<lparr>lastNavigationTimeRef := now e, isNavigatingRef := True\<rparr>,
                 Some (direction e)))"

text \<open>Both the \<^verbatim>\<open>then\<close> and the \<^verbatim>\<open>catch\<close> of the navigation promise clear the flag.\<close>

definition navigationSettled :: "reader \<Rightarrow> reader" where
  "navigationSettled s = s\<lparr>isNavigatingRef := False\<rparr>"

subsection \<open>Going back a page\<close>

text \<open>
  \<^verbatim>\<open>goToPrevPage\<close>; the \<^verbatim>\<open>then\<close> callback of \<^verbatim>\<open>rendition.prev()\<close> with the
  \<^verbatim>\<open>displayed.total\<close> it reads from the rendition; and the callback it defers by 50 ms
  with the total it captured.
\<close>

definition goToPrevPage :: "reader \<Rightarrow> reader \<times> nav_call option" where
  "goToPrevPage s =
     (if \<not> renditionRef s then (s, None)
      else
        let currentPage = sectionPageRef s
        in if currentPage > 1 then
             (let newPage = currentPage - 1;
                  s1 = applyPageTransform newPage s;
                  newGlobalPage = sectionStartGlobalPageRef s1 + (newPage - 1)
              in (updatePageNonBlocking newGlobalPage s1, None))
           else (s, Some RenditionPrev))"

definition prevResolved :: "int option \<Rightarrow> reader \<Rightarrow> reader \<times> int" where
  "prevResolved displayedTotal s =
     (let sectionTotal = (case displayedTotal of Some n \<Rightarrow> if n \<noteq> 0 then n else 1 | None \<Rightarrow> 1)
      in (applyPageTransform sectionTotal (s\<lparr>sectionTotalPagesRef := sectionTotal, sectionPageRef := sectionTotal\<rparr>),
          sectionTotal))"

definition prevDeferred :: "int \<Rightarrow> reader \<Rightarrow> reader" where
  "prevDeferred sectionTotal s =
     (let lastPageGlobal = sectionStartGlobalPageRef s + (sectionTotal - 1)
      in updatePageNonBlocking lastPageGlobal s)"

subsection \<open>The chapter index build\<close>

text \<open>An entry of the table of contents, with its nested entries.\<close>

datatype toc_item = TocItem (toc_href: string) (toc_label: string) (subitems: "toc_item list")

fun flattenToc :: "toc_item list \<Rightarrow> toc_item list" where
  "flattenToc [] = []"
| "flattenToc (TocItem h l subs # items) =
     TocItem h l subs # flattenToc subs @ flattenToc items"

text \<open>
  \<^verbatim>\<open>total\<close>, the length of the location table, is written \<open>totalLocations\<close>.
  \<^verbatim>\<open>book.locations.locationFromCfi(startCfi) || 0\<close>:
\<close>

definition orZero :: "int option \<Rightarrow> int" where
  "orZero r = (case r of Some n \<Rightarrow> n | None \<Rightarrow> 0)"

text \<open>
  \<^verbatim>\<open>endLoc\<close> of an entry starting at \<open>startLoc\<close>, from the entries that follow it in the
  flat list: the end of the book, unless the next entry has a spine item whose lookup gives
  a number above \<open>startLoc\<close>.
\<close>

definition chapterEnd :: "env \<Rightarrow> int \<Rightarrow> int \<Rightarrow> toc_item list \<Rightarrow> int outcome" where
  "chapterEnd b totalLocations startLoc rest =
     (case rest of
        [] \<Rightarrow> Returns (totalLocations - 1)
      | nextTocItem # _ \<Rightarrow>
         (case spineGet b (toc_href nextTocItem) of
            None \<Rightarrow> Returns (totalLocations - 1)
          | Some nextCfi \<Rightarrow>
             (case locationFromCfi b nextCfi of
                Throws \<Rightarrow> Throws
              | Returns nextLoc \<Rightarrow>
                 Returns (case nextLoc of
                            Some n \<Rightarrow> if n > startLoc then n - 1 else totalLocations - 1
                          | None \<Rightarrow> totalLocations - 1))))"

text \<open>
  The loop over \<^verbatim>\<open>flatToc\<close>.  An entry without a spine item is passed over; an exception
  leaves the loop.
\<close>

fun chapterLoop :: "env \<Rightarrow> int \<Rightarrow> toc_item list \<Rightarrow> chapter_range list outcome" where
  "chapterLoop b totalLocations [] = Returns []"
| "chapterLoop b totalLocations (tocItem # rest) =
     (case spineGet b (toc_href tocItem) of
        None \<Rightarrow> chapterLoop b totalLocations rest
      | Some startCfi \<Rightarrow>
         (case locationFromCfi b startCfi of
            Throws \<Rightarrow> Throws
          | Returns r \<Rightarrow>
             (let startLoc = orZero r
              in case chapterEnd b totalLocations startLoc rest of
                   Throws \<Rightarrow> Throws
                 | Returns endLoc \<Rightarrow>
                    (case chapterLoop b totalLocations rest of
                       Throws \<Rightarrow> Throws
                     | Returns chapterLocs \<Rightarrow>
                        Returns (\<lparr>href = toc_href tocItem, label = toc_label tocItem,
                                  startLocationIndex = startLoc,
                                  endLocationIndex = endLoc\<rparr> # chapterLocs)))))"

text \<open>
  The \<^verbatim>\<open>try\<close>/\<^verbatim>\<open>catch\<close> around the build: the ref is assigned after the loop, the
  \<^verbatim>\<open>catch\<close> only reports.
\<close>

definition buildChapterIndex :: "env \<Rightarrow> toc_item list \<Rightarrow> reader \<Rightarrow> reader \<times> stage list" where
  "buildChapterIndex b toc s =
     (case chapterLoop b (locationsLength b) (flattenToc toc) of
        Throws \<Rightarrow> (s, [CHAPTERS_ERROR_BUILDING])
      | Returns chapterLocs \<Rightarrow>
          (s\<lparr>chapterLocationsRef := chapterLocs\<rparr>, [CHAPTER_LOCATIONS_BUILT]))"

subsection \<open>Runs of the component\<close>

text \<open>
  Everything that changes the state: the handlers above, the effect that copies the
  \<^verbatim>\<open>isChatOpen\<close> prop into its ref, the \<^verbatim>\<open>setCurrentPage\<close> call that follows the
  chapter index build when the rendition already shows a location (with the page number
  it computes), and the rendering surface coming, going and resizing.
\<close>

datatype event =
    Relocated env reloc
  | Click tap
  | NavigationSettled
  | ChatOpen bool
  | NextPage
  | NextResolved
  | PrevPage
  | PrevResolved "int option"
  | PrevDeferred int
  | AnimationFrame
  | ChaptersBuilt env "toc_item list"
  | PageAfterBuild int
  | Surface bool "int option" "int option"

fun step :: "event \<Rightarrow> reader \<Rightarrow> reader" where
  "step (Relocated b loc) s = fst (relocated b loc s)"
| "step (Click e) s = fst (clickHandler e s)"
| "step NavigationSettled s = navigationSettled s"
| "step (ChatOpen c) s = s\<lparr>isChatOpenRef := c\<rparr>"
| "step NextPage s = fst (goToNextPage s)"
| "step NextResolved s = nextResolved s"
| "step PrevPage s = fst (goToPrevPage s)"
| "step (PrevResolved t) s = fst (prevResolved t s)"
| "step (PrevDeferred t) s = prevDeferred t s"
| "step AnimationFrame s = fst (animationFrame s)"
| "step (ChaptersBuilt b toc) s = fst (buildChapterIndex b toc s)"
| "step (PageAfterBuild p) s = s\<lparr>currentPage := p\<rparr>"
| "step (Surface r v w) s = s\<lparr>renditionRef := r, viewTransform := v, containerClientWidth := w\<rparr>"

fun run :: "event list \<Rightarrow> reader \<Rightarrow> reader" where
  "run [] s = s"
| "run (ev # evs) s = run evs (step ev s)"

subsection \<open>Notions used in the statements\<close>

fun isRelocated :: "event \<Rightarrow> bool" where
  "isRelocated (Relocated b loc) = True"
| "isRelocated _ = False"

text \<open>The processing of an event throws: at \<^verbatim>\<open>loc.start.cfi\<close>, or in one of the lookups.\<close>

definition relocatedThrows :: "env \<Rightarrow> reloc \<Rightarrow> bool" where
  "relocatedThrows b loc =
     (case loc_start loc of
        None \<Rightarrow> True
      | Some st \<Rightarrow>
          locationsLength b > 0 \<and>
          (case deriveFromCfi b (cfi st) of
             Throws \<Rightarrow> True
           | Returns _ \<Rightarrow> deriveFromCfi b (endCfi loc) = Throws))"

text \<open>The end index the renderer supplies with the event, if any.\<close>

definition suppliedEnd :: "reloc \<Rightarrow> int option" where
  "suppliedEnd loc = (case loc_end loc of Some e \<Rightarrow> location e | None \<Rightarrow> None)"

text \<open>A tap is accepted when the handler issues a navigation command for it.\<close>

definition accepted :: "tap \<Rightarrow> reader \<Rightarrow> bool" where
  "accepted e s = (snd (clickHandler e s) \<noteq> None)"

text \<open>The index lies in the chapter range.\<close>

definition inRange :: "int \<Rightarrow> chapter_range \<Rightarrow> bool" where
  "inRange i c = (startLocationIndex c \<le> i \<and> i \<le> endLocationIndex c)"

text \<open>
  Without a chapter table no chapter progress has been published: so it is initially, and
  the relocated handler keeps it so.
\<close>

definition chapterStateOk :: "reader \<Rightarrow> bool" where
  "chapterStateOk s =
     (if chapterLocationsRef s = [] then pagesLeftInChapter s = None \<and> currentChapterName s = []
      else True)"

text \<open>The entry has a spine item; and the number its lookup returns, if it returns one.\<close>

definition hasSpine :: "env \<Rightarrow> toc_item \<Rightarrow> bool" where
  "hasSpine b item = (spineGet b (toc_href item) \<noteq> None)"

definition lookupOf :: "env \<Rightarrow> toc_item \<Rightarrow> int option" where
  "lookupOf b item =
     (case spineGet b (toc_href item) of
        None \<Rightarrow> None
      | Some c \<Rightarrow> (case locationFromCfi b c of Throws \<Rightarrow> None | Returns r \<Rightarrow> r))"

definition lookupThrows :: "env \<Rightarrow> toc_item \<Rightarrow> bool" where
  "lookupThrows b item =
     (case spineGet b (toc_href item) of
        None \<Rightarrow> False
      | Some c \<Rightarrow> locationFromCfi b c = Throws)"

subsection \<open>Scenarios\<close>

text \<open>
  A book of 100 locations whose spine has three items, the lookup of the third throwing;
  a relocation event that reports a viewport range; and a reader for which location 60
  was the last one requested.
\<close>

definition bookEnv :: env where
  "bookEnv =
     \<lparr> locationsLength = 100,
       locationFromCfi = (\<lambda>c. if c = ''ch1'' then Returns (Some 0)
                              else if c = ''ch2'' then Returns (Some 50)
                              else if c = ''broken'' then Throws
                              else Returns None),
       spineGet = (\<lambda>h. if h = ''ch1.xhtml'' then Some ''ch1''
                       else if h = ''ch2.xhtml'' then Some ''ch2''
                       else if h = ''ch3.xhtml'' then Some ''broken''
                       else None),
       onLocationChange = True \<rparr>"

definition viewportEvent :: "int \<Rightarrow> int \<Rightarrow> reloc" where
  "viewportEvent a e =
     \<lparr> loc_start = Some \<lparr>cfi = Some ''epubcfi(/6/4)'', location = Some a, displayed = None\<rparr>,
       loc_end = Some \<lparr>cfi = Some ''epubcfi(/6/6)'', location = Some e, displayed = None\<rparr> \<rparr>"

definition requested60 :: reader where
  "requested60 = initialReader\<lparr>lastRequestedLocationIndexRef := Some 60\<rparr>"

text \<open>
  An event that reports a start index only; one whose end identifier makes the lookup
  throw; and the reader after a relocation to the viewport range 55 to 58.
\<close>

definition startOnlyEvent :: "int \<Rightarrow> reloc" where
  "startOnlyEvent a =
     \<lparr> loc_start = Some \<lparr>cfi = Some ''epubcfi(/6/8)'', location = Some a, displayed = None\<rparr>,
       loc_end = None \<rparr>"

definition brokenEndEvent :: reloc where
  "brokenEndEvent =
     \<lparr> loc_start = Some \<lparr>cfi = Some ''epubcfi(/6/8)'', location = Some 70, displayed = None\<rparr>,
       loc_end = Some \<lparr>cfi = Some ''broken'', location = None, displayed = None\<rparr> \<rparr>"

definition settled5558 :: reader where
  "settled5558 = fst (relocated bookEnv (viewportEvent 55 58) initialReader)"

text \<open>A reader whose chapter table holds Ch1 from 0 to 49 and Ch2 from 50 to 99.\<close>

definition twoChapters :: reader where
  "twoChapters =
     initialReader\<lparr>chapterLocationsRef :=
       [\<lparr>href = ''ch1.xhtml'', label = ''Ch1'', startLocationIndex = 0, endLocationIndex = 49\<rparr>,
        \<lparr>href = ''ch2.xhtml'', label = ''Ch2'', startLocationIndex = 50, endLocationIndex = 99\<rparr>]\<rparr>"

text \<open>
  A reader that has entered a section of three pages starting at location 9, with a view
  400 px wide; and the same reader while the surface has no view.
\<close>

definition sectionOf3 :: reloc where
  "sectionOf3 =
     \<lparr> loc_start = Some \<lparr>cfi = Some ''epubcfi(/6/10)'', location = Some 9,
                          displayed = Some \<lparr>displayed_page = Some 1, displayed_total = Some 3\<rparr>\<rparr>,
       loc_end = Some \<lparr>cfi = Some ''epubcfi(/6/12)'', location = Some 9, displayed = None\<rparr> \<rparr>"

definition inSection :: reader where
  "inSection = run [Surface True (Some 0) (Some 400), Relocated bookEnv sectionOf3] initialReader"

definition betweenViews :: reader where
  "betweenViews = step (Surface True None (Some 400)) inSection"

text \<open>
  A tap at 95 percent of a viewport 400 px wide, at a given time; and the reader after
  such a tap at time 1000 whose navigation has completed.
\<close>

definition rightTap :: "int \<Rightarrow> tap" where
  "rightTap t = \<lparr>onLink = False, selectionText = [], now = t, clientX = 380, innerWidth = 400\<rparr>"

definition justNavigated :: reader where
  "justNavigated = run [Click (rightTap 1000), NavigationSettled] initialReader"

text \<open>
  Two tables of contents for the book above: one with the first two chapters, and a nested
  one that also lists the third, whose lookup throws.
\<close>

definition tocOfTwo :: "toc_item list" where
  "tocOfTwo = [TocItem ''ch1.xhtml'' ''Ch1'' [], TocItem ''ch2.xhtml'' ''Ch2'' []]"

definition tocOfThree :: "toc_item list" where
  "tocOfThree =
     [TocItem ''ch1.xhtml'' ''Ch1'' [TocItem ''ch2.xhtml'' ''Ch2'' []],
      TocItem ''ch3.xhtml'' ''Ch3'' []]"

section \<open>Properties\<close>

subsection \<open>The coalesced update\<close>

lemma updatePageNonBlocking_effect:
  "frameQueueOk s \<Longrightarrow>
     frameQueueOk (updatePageNonBlocking p s) \<and>
     pageUpdateScheduledRef (updatePageNonBlocking p s) \<and>
     pendingPageRef (updatePageNonBlocking p s) = Some p \<and>
     currentPage (updatePageNonBlocking p s) = currentPage s"
  by (simp add: updatePageNonBlocking_def frameQueueOk_def Let_def)

lemma updatePages_effect:
  "frameQueueOk s \<Longrightarrow> ps \<noteq> [] \<Longrightarrow>
     frameQueueOk (updatePages ps s) \<and>
     pageUpdateScheduledRef (updatePages ps s) \<and>
     pendingPageRef (updatePages ps s) = Some (last ps) \<and>
     currentPage (updatePages ps s) = currentPage s"
proof (induction ps arbitrary: s)
  case Nil
  then show ?case by simp
next
  case (Cons p ps)
  show ?case
  proof (cases "ps = []")
    case True
    with Cons.prems show ?thesis by (simp add: updatePageNonBlocking_effect)
  next
    case False
    have ok: "frameQueueOk (updatePageNonBlocking p s)"
      using Cons.prems by (simp add: updatePageNonBlocking_effect)
    from Cons.IH [OF ok False] False Cons.prems show ?thesis
      by (simp add: updatePageNonBlocking_effect)
  qed
qed

lemma animationFrame_pending:
  "frameQueueOk s \<Longrightarrow> pageUpdateScheduledRef s \<Longrightarrow> pendingPageRef s = Some p \<Longrightarrow>
     snd (animationFrame s) = [p] \<and>
     currentPage (fst (animationFrame s)) = p \<and>
     pendingPageRef (fst (animationFrame s)) = None \<and>
     frameQueueOk (fst (animationFrame s)) \<and>
     \<not> pageUpdateScheduledRef (fst (animationFrame s))"
  by (simp add: animationFrame_def frameQueueOk_def pageUpdateCallback_def)

lemma animationFrame_idle:
  "frameQueueOk s \<Longrightarrow> \<not> pageUpdateScheduledRef s \<Longrightarrow> animationFrame s = (s, [])"
  by (simp add: animationFrame_def frameQueueOk_def)

lemma animationFrame_frameQueueOk:
  "frameQueueOk s \<Longrightarrow> frameQueueOk (fst (animationFrame s))"
  by (cases "pageUpdateScheduledRef s")
     (simp_all add: animationFrame_def frameQueueOk_def pageUpdateCallback_def split: option.splits)

lemma runCallbacks_Suc_fst:
  "fst (runCallbacks (Suc n) s) = fst (runCallbacks n (fst (pageUpdateCallback s)))"
  by (simp add: case_prod_beta Let_def)

lemma pageUpdateCallback_keeps:
  "lastRelocatedStartRef (fst (pageUpdateCallback s)) = lastRelocatedStartRef s"
  "lastRelocatedEndRef (fst (pageUpdateCallback s)) = lastRelocatedEndRef s"
  "lastRequestedLocationIndexRef (fst (pageUpdateCallback s)) = lastRequestedLocationIndexRef s"
  "lastNavigationTimeRef (fst (pageUpdateCallback s)) = lastNavigationTimeRef s"
  "pagesLeftInChapter (fst (pageUpdateCallback s)) = pagesLeftInChapter s"
  "currentChapterName (fst (pageUpdateCallback s)) = currentChapterName s"
  "chapterLocationsRef (fst (pageUpdateCallback s)) = chapterLocationsRef s"
  by (simp_all add: pageUpdateCallback_def split: option.splits)

lemma runCallbacks_keeps:
  "lastRelocatedStartRef (fst (runCallbacks n s)) = lastRelocatedStartRef s \<and>
   lastRelocatedEndRef (fst (runCallbacks n s)) = lastRelocatedEndRef s \<and>
   lastRequestedLocationIndexRef (fst (runCallbacks n s)) = lastRequestedLocationIndexRef s \<and>
   lastNavigationTimeRef (fst (runCallbacks n s)) = lastNavigationTimeRef s \<and>
   pagesLeftInChapter (fst (runCallbacks n s)) = pagesLeftInChapter s \<and>
   currentChapterName (fst (runCallbacks n s)) = currentChapterName s \<and>
   chapterLocationsRef (fst (runCallbacks n s)) = chapterLocationsRef s"
proof (induction n arbitrary: s)
  case 0
  show ?case by simp
next
  case (Suc n)
  show ?case
    unfolding runCallbacks_Suc_fst by (simp add: Suc.IH pageUpdateCallback_keeps)
qed

lemma animationFrame_keeps:
  "lastRelocatedStartRef (fst (animationFrame s)) = lastRelocatedStartRef s"
  "lastRelocatedEndRef (fst (animationFrame s)) = lastRelocatedEndRef s"
  "lastRequestedLocationIndexRef (fst (animationFrame s)) = lastRequestedLocationIndexRef s"
  "lastNavigationTimeRef (fst (animationFrame s)) = lastNavigationTimeRef s"
  "pagesLeftInChapter (fst (animationFrame s)) = pagesLeftInChapter s"
  "currentChapterName (fst (animationFrame s)) = currentChapterName s"
  "chapterLocationsRef (fst (animationFrame s)) = chapterLocationsRef s"
  by (simp_all add: animationFrame_def runCallbacks_keeps)

lemma updatePageNonBlocking_keeps:
  "lastRelocatedStartRef (updatePageNonBlocking p s) = lastRelocatedStartRef s"
  "lastRelocatedEndRef (updatePageNonBlocking p s) = lastRelocatedEndRef s"
  "lastRequestedLocationIndexRef (updatePageNonBlocking p s) = lastRequestedLocationIndexRef s"
  "lastNavigationTimeRef (updatePageNonBlocking p s) = lastNavigationTimeRef s"
  "pagesLeftInChapter (updatePageNonBlocking p s) = pagesLeftInChapter s"
  "currentChapterName (updatePageNonBlocking p s) = currentChapterName s"
  "chapterLocationsRef (updatePageNonBlocking p s) = chapterLocationsRef s"
  "sectionPageRef (updatePageNonBlocking p s) = sectionPageRef s"
  "sectionTotalPagesRef (updatePageNonBlocking p s) = sectionTotalPagesRef s"
  "sectionStartGlobalPageRef (updatePageNonBlocking p s) = sectionStartGlobalPageRef s"
  "renditionRef (updatePageNonBlocking p s) = renditionRef s"
  "viewTransform (updatePageNonBlocking p s) = viewTransform s"
  "containerWidthRef (updatePageNonBlocking p s) = containerWidthRef s"
  "containerClientWidth (updatePageNonBlocking p s) = containerClientWidth s"
  by (simp_all add: updatePageNonBlocking_def Let_def)

lemma applyPageTransform_keeps:
  "lastRelocatedStartRef (applyPageTransform p s) = lastRelocatedStartRef s"
  "lastRelocatedEndRef (applyPageTransform p s) = lastRelocatedEndRef s"
  "lastRequestedLocationIndexRef (applyPageTransform p s) = lastRequestedLocationIndexRef s"
  "lastNavigationTimeRef (applyPageTransform p s) = lastNavigationTimeRef s"
  "pagesLeftInChapter (applyPageTransform p s) = pagesLeftInChapter s"
  "currentChapterName (applyPageTransform p s) = currentChapterName s"
  "chapterLocationsRef (applyPageTransform p s) = chapterLocationsRef s"
  "frameQueueOk (applyPageTransform p s) = frameQueueOk s"
  "sectionTotalPagesRef (applyPageTransform p s) = sectionTotalPagesRef s"
  "sectionStartGlobalPageRef (applyPageTransform p s) = sectionStartGlobalPageRef s"
  "renditionRef (applyPageTransform p s) = renditionRef s"
  "containerWidthRef (applyPageTransform p s) = containerWidthRef s"
  "containerClientWidth (applyPageTransform p s) = containerClientWidth s"
  "currentPage (applyPageTransform p s) = currentPage s"
  by (simp_all add: applyPageTransform_def frameQueueOk_def Let_def split: option.splits)

lemma goToNextPage_keeps:
  "lastRelocatedStartRef (fst (goToNextPage s)) = lastRelocatedStartRef s"
  "lastRelocatedEndRef (fst (goToNextPage s)) = lastRelocatedEndRef s"
  "lastRequestedLocationIndexRef (fst (goToNextPage s)) = lastRequestedLocationIndexRef s"
  "lastNavigationTimeRef (fst (goToNextPage s)) = lastNavigationTimeRef s"
  "pagesLeftInChapter (fst (goToNextPage s)) = pagesLeftInChapter s"
  "currentChapterName (fst (goToNextPage s)) = currentChapterName s"
  "chapterLocationsRef (fst (goToNextPage s)) = chapterLocationsRef s"
  by (simp_all add: goToNextPage_def Let_def updatePageNonBlocking_keeps applyPageTransform_keeps)

lemma goToPrevPage_keeps:
  "lastRelocatedStartRef (fst (goToPrevPage s)) = lastRelocatedStartRef s"
  "lastRelocatedEndRef (fst (goToPrevPage s)) = lastRelocatedEndRef s"
  "lastRequestedLocationIndexRef (fst (goToPrevPage s)) = lastRequestedLocationIndexRef s"
  "lastNavigationTimeRef (fst (goToPrevPage s)) = lastNavigationTimeRef s"
  "pagesLeftInChapter (fst (goToPrevPage s)) = pagesLeftInChapter s"
  "currentChapterName (fst (goToPrevPage s)) = currentChapterName s"
  "chapterLocationsRef (fst (goToPrevPage s)) = chapterLocationsRef s"
  by (simp_all add: goToPrevPage_def Let_def updatePageNonBlocking_keeps applyPageTransform_keeps)

lemma callbacks_keep:
  "lastRelocatedStartRef (nextResolved s) = lastRelocatedStartRef s"
  "lastRelocatedEndRef (nextResolved s) = lastRelocatedEndRef s"
  "lastRequestedLocationIndexRef (nextResolved s) = lastRequestedLocationIndexRef s"
  "lastNavigationTimeRef (nextResolved s) = lastNavigationTimeRef s"
  "pagesLeftInChapter (nextResolved s) = pagesLeftInChapter s"
  "currentChapterName (nextResolved s) = currentChapterName s"
  "chapterLocationsRef (nextResolved s) = chapterLocationsRef s"
  "lastRelocatedStartRef (fst (prevResolved t s)) = lastRelocatedStartRef s"
  "lastRelocatedEndRef (fst (prevResolved t s)) = lastRelocatedEndRef s"
  "lastRequestedLocationIndexRef (fst (prevResolved t s)) = lastRequestedLocationIndexRef s"
  "lastNavigationTimeRef (fst (prevResolved t s)) = lastNavigationTimeRef s"
  "pagesLeftInChapter (fst (prevResolved t s)) = pagesLeftInChapter s"
  "currentChapterName (fst (prevResolved t s)) = currentChapterName s"
  "chapterLocationsRef (fst (prevResolved t s)) = chapterLocationsRef s"
  "lastRelocatedStartRef (prevDeferred n s) = lastRelocatedStartRef s"
  "lastRelocatedEndRef (prevDeferred n s) = lastRelocatedEndRef s"
  "lastRequestedLocationIndexRef (prevDeferred n s) = lastRequestedLocationIndexRef s"
  "lastNavigationTimeRef (prevDeferred n s) = lastNavigationTimeRef s"
  "pagesLeftInChapter (prevDeferred n s) = pagesLeftInChapter s"
  "currentChapterName (prevDeferred n s) = currentChapterName s"
  "chapterLocationsRef (prevDeferred n s) = chapterLocationsRef s"
  "lastRelocatedStartRef (navigationSettled s) = lastRelocatedStartRef s"
  "lastRelocatedEndRef (navigationSettled s) = lastRelocatedEndRef s"
  "lastRequestedLocationIndexRef (navigationSettled s) = lastRequestedLocationIndexRef s"
  "lastNavigationTimeRef (navigationSettled s) = lastNavigationTimeRef s"
  "pagesLeftInChapter (navigationSettled s) = pagesLeftInChapter s"
  "currentChapterName (navigationSettled s) = currentChapterName s"
  "chapterLocationsRef (navigationSettled s) = chapterLocationsRef s"
  by (simp_all add: nextResolved_def prevResolved_def prevDeferred_def navigationSettled_def
       Let_def updatePageNonBlocking_keeps applyPageTransform_keeps)

lemma buildChapterIndex_keeps:
  "lastRelocatedStartRef (fst (buildChapterIndex b toc s)) = lastRelocatedStartRef s"
  "lastRelocatedEndRef (fst (buildChapterIndex b toc s)) = lastRelocatedEndRef s"
  "lastRequestedLocationIndexRef (fst (buildChapterIndex b toc s)) = lastRequestedLocationIndexRef s"
  "lastNavigationTimeRef (fst (buildChapterIndex b toc s)) = lastNavigationTimeRef s"
  "pagesLeftInChapter (fst (buildChapterIndex b toc s)) = pagesLeftInChapter s"
  "currentChapterName (fst (buildChapterIndex b toc s)) = currentChapterName s"
  "frameQueueOk (fst (buildChapterIndex b toc s)) = frameQueueOk s"
  by (simp_all add: buildChapterIndex_def frameQueueOk_def split: outcome.splits)

lemma clickHandler_keeps:
  "lastRelocatedStartRef (fst (clickHandler e s)) = lastRelocatedStartRef s"
  "lastRelocatedEndRef (fst (clickHandler e s)) = lastRelocatedEndRef s"
  "lastRequestedLocationIndexRef (fst (clickHandler e s)) = lastRequestedLocationIndexRef s"
  "pagesLeftInChapter (fst (clickHandler e s)) = pagesLeftInChapter s"
  "currentChapterName (fst (clickHandler e s)) = currentChapterName s"
  "chapterLocationsRef (fst (clickHandler e s)) = chapterLocationsRef s"
  "frameQueueOk (fst (clickHandler e s)) = frameQueueOk s"
  by (simp_all add: clickHandler_def frameQueueOk_def Let_def)

subsection \<open>The relocated handler, part by part\<close>

lemma syncSection_keeps:
  "lastRelocatedStartRef (syncSection st a s) = lastRelocatedStartRef s"
  "lastRelocatedEndRef (syncSection st a s) = lastRelocatedEndRef s"
  "lastRequestedLocationIndexRef (syncSection st a s) = lastRequestedLocationIndexRef s"
  "lastNavigationTimeRef (syncSection st a s) = lastNavigationTimeRef s"
  "currentPage (syncSection st a s) = currentPage s"
  "pendingPageRef (syncSection st a s) = pendingPageRef s"
  "frameQueueOk (syncSection st a s) = frameQueueOk s"
  "currentStartLocationRef (syncSection st a s) = currentStartLocationRef s"
  "currentEndLocationRef (syncSection st a s) = currentEndLocationRef s"
  "chapterLocationsRef (syncSection st a s) = chapterLocationsRef s"
  "pagesLeftInChapter (syncSection st a s) = pagesLeftInChapter s"
  "currentChapterName (syncSection st a s) = currentChapterName s"
  "currentLocation (syncSection st a s) = currentLocation s"
  by (simp_all add: syncSection_def frameQueueOk_def Let_def split: option.splits)

lemma syncViewport_keeps:
  "lastRelocatedStartRef (syncViewport a e s) = lastRelocatedStartRef s"
  "lastRelocatedEndRef (syncViewport a e s) = lastRelocatedEndRef s"
  "lastRequestedLocationIndexRef (syncViewport a e s) = lastRequestedLocationIndexRef s"
  "lastNavigationTimeRef (syncViewport a e s) = lastNavigationTimeRef s"
  "currentPage (syncViewport a e s) = currentPage s"
  "pendingPageRef (syncViewport a e s) = pendingPageRef s"
  "frameQueueOk (syncViewport a e s) = frameQueueOk s"
  "chapterLocationsRef (syncViewport a e s) = chapterLocationsRef s"
  "pagesLeftInChapter (syncViewport a e s) = pagesLeftInChapter s"
  "currentChapterName (syncViewport a e s) = currentChapterName s"
  "currentLocation (syncViewport a e s) = currentLocation s"
  by (simp_all add: syncViewport_def frameQueueOk_def Let_def split: option.splits)

lemma syncViewport_refs:
  "currentStartLocationRef (syncViewport a e s) =
     (case a of Some x \<Rightarrow> if 0 \<le> x then Some x else currentStartLocationRef s
              | None \<Rightarrow> currentStartLocationRef s)"
  "currentEndLocationRef (syncViewport a e s) =
     (case e of Some x \<Rightarrow> if 0 \<le> x then Some x else currentEndLocationRef s
              | None \<Rightarrow> currentEndLocationRef s)"
  by (simp_all add: syncViewport_def Let_def split: option.splits)

lemma submitPage_keeps:
  "lastRelocatedStartRef (fst (submitPage a s)) = lastRelocatedStartRef s"
  "lastRelocatedEndRef (fst (submitPage a s)) = lastRelocatedEndRef s"
  "lastRequestedLocationIndexRef (fst (submitPage a s)) = lastRequestedLocationIndexRef s"
  "lastNavigationTimeRef (fst (submitPage a s)) = lastNavigationTimeRef s"
  "currentPage (fst (submitPage a s)) = currentPage s"
  "currentStartLocationRef (fst (submitPage a s)) = currentStartLocationRef s"
  "currentEndLocationRef (fst (submitPage a s)) = currentEndLocationRef s"
  "chapterLocationsRef (fst (submitPage a s)) = chapterLocationsRef s"
  "pagesLeftInChapter (fst (submitPage a s)) = pagesLeftInChapter s"
  "currentChapterName (fst (submitPage a s)) = currentChapterName s"
  "currentLocation (fst (submitPage a s)) = currentLocation s"
  by (simp_all add: submitPage_def updatePageNonBlocking_def Let_def split: option.splits)

lemma submitPage_frameQueueOk:
  "frameQueueOk s \<Longrightarrow> frameQueueOk (fst (submitPage a s))"
  by (simp add: submitPage_def updatePageNonBlocking_effect Let_def split: option.splits)

lemma submitPage_pending:
  "frameQueueOk s \<Longrightarrow> 0 \<le> x \<Longrightarrow>
     pendingPageRef (fst (submitPage (Some x) s)) = Some (x + 1) \<and>
     pageUpdateScheduledRef (fst (submitPage (Some x) s))"
  by (simp add: submitPage_def updatePageNonBlocking_effect Let_def)

lemma submitPage_none:
  "fst (submitPage None s) = s"
  "x < 0 \<Longrightarrow> fst (submitPage (Some x) s) = s"
  by (simp_all add: submitPage_def)

lemma submitPage_log:
  "RELOCATED_STUCK_DETECTED \<notin> set (snd (submitPage a s))"
  "RELOCATED_EVENT_ERROR \<notin> set (snd (submitPage a s))"
  by (simp_all add: submitPage_def Let_def split: option.splits)

lemma chapterProgress_keeps:
  "lastRelocatedStartRef (fst (chapterProgress a s)) = lastRelocatedStartRef s"
  "lastRelocatedEndRef (fst (chapterProgress a s)) = lastRelocatedEndRef s"
  "lastRequestedLocationIndexRef (fst (chapterProgress a s)) = lastRequestedLocationIndexRef s"
  "lastNavigationTimeRef (fst (chapterProgress a s)) = lastNavigationTimeRef s"
  "currentPage (fst (chapterProgress a s)) = currentPage s"
  "pendingPageRef (fst (chapterProgress a s)) = pendingPageRef s"
  "pageUpdateScheduledRef (fst (chapterProgress a s)) = pageUpdateScheduledRef s"
  "frameQueueOk (fst (chapterProgress a s)) = frameQueueOk s"
  "currentStartLocationRef (fst (chapterProgress a s)) = currentStartLocationRef s"
  "currentEndLocationRef (fst (chapterProgress a s)) = currentEndLocationRef s"
  "chapterLocationsRef (fst (chapterProgress a s)) = chapterLocationsRef s"
  "currentLocation (fst (chapterProgress a s)) = currentLocation s"
  by (simp_all add: chapterProgress_def frameQueueOk_def Let_def split: option.splits)

lemma chapterProgress_log:
  "RELOCATED_STUCK_DETECTED \<notin> set (snd (chapterProgress a s))"
  "RELOCATED_EVENT_ERROR \<notin> set (snd (chapterProgress a s))"
  by (simp_all add: chapterProgress_def Let_def split: option.splits)

lemma chapterProgress_published:
  "chapterLocationsRef s \<noteq> [] \<Longrightarrow>
     pagesLeftInChapter (fst (chapterProgress (Some i) s)) =
       (case findChapter (chapterLocationsRef s) i of
          Some c \<Rightarrow> Some (max 0 (endLocationIndex c - i))
        | None \<Rightarrow> None) \<and>
     currentChapterName (fst (chapterProgress (Some i) s)) =
       (case findChapter (chapterLocationsRef s) i of
          Some c \<Rightarrow> label c
        | None \<Rightarrow> [])"
  by (simp add: chapterProgress_def Let_def split: option.splits)

lemma chapterProgress_unchanged:
  "chapterLocationsRef s = [] \<Longrightarrow> fst (chapterProgress a s) = s"
  "fst (chapterProgress None s) = s"
  by (simp_all add: chapterProgress_def Let_def split: option.splits)

lemmas relocated_parts_keep =
  syncSection_keeps syncViewport_keeps submitPage_keeps chapterProgress_keeps

lemma relocatedRange_fst:
  "fst (relocatedRange st a e s) =
     fst (chapterProgress a (fst (submitPage a (syncViewport a e (syncSection st a
           (s\<lparr>lastRelocatedStartRef := a, lastRelocatedEndRef := e\<rparr>))))))"
  by (simp add: relocatedRange_def Let_def case_prod_beta)

lemma relocatedRange_snd:
  "snd (relocatedRange st a e s) =
     (RELOCATED_PAGE_INFO # (if stuckDetected s a e then [RELOCATED_STUCK_DETECTED] else []))
     @ snd (submitPage a (syncViewport a e (syncSection st a
             (s\<lparr>lastRelocatedStartRef := a, lastRelocatedEndRef := e\<rparr>))))
     @ snd (chapterProgress a (fst (submitPage a (syncViewport a e (syncSection st a
             (s\<lparr>lastRelocatedStartRef := a, lastRelocatedEndRef := e\<rparr>))))))"
  by (simp add: relocatedRange_def Let_def case_prod_beta)

lemma relocatedRange_keeps:
  "lastRequestedLocationIndexRef (fst (relocatedRange st a e s)) = lastRequestedLocationIndexRef s"
  "lastNavigationTimeRef (fst (relocatedRange st a e s)) = lastNavigationTimeRef s"
  "currentPage (fst (relocatedRange st a e s)) = currentPage s"
  "currentLocation (fst (relocatedRange st a e s)) = currentLocation s"
  "chapterLocationsRef (fst (relocatedRange st a e s)) = chapterLocationsRef s"
  by (simp_all add: relocatedRange_fst relocated_parts_keep)

lemma relocatedRange_lastRelocated:
  "lastRelocatedStartRef (fst (relocatedRange st a e s)) = a"
  "lastRelocatedEndRef (fst (relocatedRange st a e s)) = e"
  by (simp_all add: relocatedRange_fst relocated_parts_keep)

lemma relocatedRange_viewport:
  "currentStartLocationRef (fst (relocatedRange st a e s)) =
     (case a of Some x \<Rightarrow> if 0 \<le> x then Some x else currentStartLocationRef s
              | None \<Rightarrow> currentStartLocationRef s)"
  "currentEndLocationRef (fst (relocatedRange st a e s)) =
     (case e of Some x \<Rightarrow> if 0 \<le> x then Some x else currentEndLocationRef s
              | None \<Rightarrow> currentEndLocationRef s)"
  by (simp_all add: relocatedRange_fst relocated_parts_keep syncViewport_refs split: option.splits)

lemma relocatedRange_frameQueueOk:
  "frameQueueOk s \<Longrightarrow> frameQueueOk (fst (relocatedRange st a e s))"
proof -
  assume ok: "frameQueueOk s"
  have "frameQueueOk (syncViewport a e (syncSection st a
           (s\<lparr>lastRelocatedStartRef := a, lastRelocatedEndRef := e\<rparr>)))"
    using ok by (simp add: relocated_parts_keep) (simp add: frameQueueOk_def)
  then show ?thesis
    by (simp add: relocatedRange_fst chapterProgress_keeps submitPage_frameQueueOk)
qed

lemma relocatedRange_pending:
  assumes "frameQueueOk s" and "0 \<le> x"
  shows "pendingPageRef (fst (relocatedRange st (Some x) e s)) = Some (x + 1) \<and>
         pageUpdateScheduledRef (fst (relocatedRange st (Some x) e s))"
proof -
  have "frameQueueOk (syncViewport (Some x) e (syncSection st (Some x)
           (s\<lparr>lastRelocatedStartRef := Some x, lastRelocatedEndRef := e\<rparr>)))"
    using assms(1) by (simp add: relocated_parts_keep) (simp add: frameQueueOk_def)
  then show ?thesis
    using assms(2) by (simp add: relocatedRange_fst chapterProgress_keeps submitPage_pending)
qed

lemma relocatedRange_pending_unchanged:
  assumes "a = None \<or> (\<exists>x. a = Some x \<and> x < 0)"
  shows "pendingPageRef (fst (relocatedRange st a e s)) = pendingPageRef s \<and>
         pageUpdateScheduledRef (fst (relocatedRange st a e s)) = pageUpdateScheduledRef s"
  using assms
  by (auto simp add: relocatedRange_fst chapterProgress_keeps submitPage_none syncViewport_keeps
        syncSection_keeps syncViewport_def syncSection_def Let_def split: option.splits)

lemma relocatedRange_stuck:
  "RELOCATED_STUCK_DETECTED \<in> set (snd (relocatedRange st a e s)) \<longleftrightarrow> stuckDetected s a e"
  by (simp add: relocatedRange_snd submitPage_log chapterProgress_log)

lemma relocatedRange_no_error:
  "RELOCATED_EVENT_ERROR \<notin> set (snd (relocatedRange st a e s))"
  by (simp add: relocatedRange_snd submitPage_log chapterProgress_log)

lemma relocatedRange_progress:
  "chapterLocationsRef s \<noteq> [] \<Longrightarrow>
     pagesLeftInChapter (fst (relocatedRange st (Some i) e s)) =
       (case findChapter (chapterLocationsRef s) i of
          Some c \<Rightarrow> Some (max 0 (endLocationIndex c - i))
        | None \<Rightarrow> None) \<and>
     currentChapterName (fst (relocatedRange st (Some i) e s)) =
       (case findChapter (chapterLocationsRef s) i of
          Some c \<Rightarrow> label c
        | None \<Rightarrow> [])"
  by (simp add: relocatedRange_fst chapterProgress_published relocated_parts_keep)

lemma relocatedRange_progress_unchanged:
  "chapterLocationsRef s = [] \<or> a = None \<Longrightarrow>
     pagesLeftInChapter (fst (relocatedRange st a e s)) = pagesLeftInChapter s \<and>
     currentChapterName (fst (relocatedRange st a e s)) = currentChapterName s"
  by (auto simp add: relocatedRange_fst chapterProgress_unchanged relocated_parts_keep)

subsection \<open>The relocated handler as a whole\<close>

lemma relocated_processed:
  assumes "locationsLength b > 0" and "resolvedRange b loc = Some (a, e)"
  shows "\<exists>st. loc_start loc = Some st \<and>
           fst (relocated b loc s) = fst (relocatedRange st a e (s\<lparr>currentLocation := cfi st\<rparr>)) \<and>
           snd (relocated b loc s) =
             ([RELOCATED_BEFORE_SET_CURRENT_LOCATION, RELOCATED_AFTER_SET_CURRENT_LOCATION] @
              (if onLocationChange b
               then [RELOCATED_BEFORE_ON_LOCATION_CHANGE, RELOCATED_AFTER_ON_LOCATION_CHANGE]
               else [])) @
             snd (relocatedRange st a e (s\<lparr>currentLocation := cfi st\<rparr>)) @
             [RELOCATED_EVENT_COMPLETE]"
  using assms
  by (auto simp add: relocated_def resolvedRange_def relocatedPage_def Let_def case_prod_beta
        split: option.splits outcome.splits)

lemma relocated_throws:
  assumes "relocatedThrows b loc"
  shows "fst (relocated b loc s) =
           (case loc_start loc of None \<Rightarrow> s | Some st \<Rightarrow> s\<lparr>currentLocation := cfi st\<rparr>)"
    and "snd (relocated b loc s) \<noteq> []"
    and "last (snd (relocated b loc s)) = RELOCATED_EVENT_ERROR"
  using assms
  by (auto simp add: relocated_def relocatedThrows_def Let_def split: option.splits outcome.splits)

lemma relocated_returns:
  assumes "\<not> relocatedThrows b loc"
  shows "RELOCATED_EVENT_ERROR \<notin> set (snd (relocated b loc s))"
  using assms
  by (auto simp add: relocated_def relocatedThrows_def relocatedPage_def Let_def case_prod_beta
        relocatedRange_no_error split: option.splits outcome.splits)

lemma relocated_cases:
  "relocatedThrows b loc \<or>
   (\<exists>st. loc_start loc = Some st \<and> \<not> locationsLength b > 0) \<or>
   (locationsLength b > 0 \<and> (\<exists>a e. resolvedRange b loc = Some (a, e)))"
  by (auto simp add: relocatedThrows_def resolvedRange_def Let_def split: option.splits outcome.splits)

lemma relocated_not_ready:
  assumes "loc_start loc = Some st" and "\<not> locationsLength b > 0"
  shows "fst (relocated b loc s) = s\<lparr>currentLocation := cfi st\<rparr>"
  using assms by (simp add: relocated_def Let_def)

lemma relocated_keeps:
  "lastRequestedLocationIndexRef (fst (relocated b loc s)) = lastRequestedLocationIndexRef s"
  "lastNavigationTimeRef (fst (relocated b loc s)) = lastNavigationTimeRef s"
  "currentPage (fst (relocated b loc s)) = currentPage s"
  "chapterLocationsRef (fst (relocated b loc s)) = chapterLocationsRef s"
  by (simp_all add: relocated_def relocatedPage_def relocatedRange_keeps Let_def case_prod_beta
        split: option.splits outcome.splits)

lemma relocated_frameQueueOk:
  assumes "frameQueueOk s"
  shows "frameQueueOk (fst (relocated b loc s))"
proof -
  have upd: "frameQueueOk (s\<lparr>currentLocation := c\<rparr>)" for c
    using assms by (simp add: frameQueueOk_def)
  show ?thesis
    by (simp add: relocated_def relocatedPage_def relocatedRange_frameQueueOk upd assms Let_def
          case_prod_beta split: option.splits outcome.splits)
qed

subsection \<open>Steps\<close>

lemma goToNextPage_frameQueueOk:
  "frameQueueOk s \<Longrightarrow> frameQueueOk (fst (goToNextPage s))"
  by (simp add: goToNextPage_def Let_def updatePageNonBlocking_effect applyPageTransform_keeps)

lemma goToPrevPage_frameQueueOk:
  "frameQueueOk s \<Longrightarrow> frameQueueOk (fst (goToPrevPage s))"
  by (simp add: goToPrevPage_def Let_def updatePageNonBlocking_effect applyPageTransform_keeps)

lemma callbacks_frameQueueOk:
  "frameQueueOk s \<Longrightarrow> frameQueueOk (nextResolved s)"
  "frameQueueOk s \<Longrightarrow> frameQueueOk (fst (prevResolved t s))"
  "frameQueueOk s \<Longrightarrow> frameQueueOk (prevDeferred n s)"
  "frameQueueOk s \<Longrightarrow> frameQueueOk (navigationSettled s)"
  by (simp_all add: nextResolved_def prevResolved_def prevDeferred_def navigationSettled_def
        Let_def updatePageNonBlocking_effect applyPageTransform_keeps)
     (simp_all add: frameQueueOk_def)

lemma step_frameQueueOk:
  "frameQueueOk s \<Longrightarrow> frameQueueOk (step ev s)"
  by (cases ev)
     (simp_all add: relocated_frameQueueOk clickHandler_keeps callbacks_frameQueueOk
        goToNextPage_frameQueueOk goToPrevPage_frameQueueOk animationFrame_frameQueueOk
        buildChapterIndex_keeps, simp_all add: frameQueueOk_def)

lemma run_frameQueueOk:
  "frameQueueOk s \<Longrightarrow> frameQueueOk (run evs s)"
  by (induction evs arbitrary: s) (simp_all add: step_frameQueueOk)

lemma step_keeps_lastRelocated:
  "\<not> isRelocated ev \<Longrightarrow>
     lastRelocatedStartRef (step ev s) = lastRelocatedStartRef s \<and>
     lastRelocatedEndRef (step ev s) = lastRelocatedEndRef s"
  by (cases ev)
     (simp_all add: animationFrame_keeps goToNextPage_keeps goToPrevPage_keeps callbacks_keep
        clickHandler_keeps buildChapterIndex_keeps)

lemma run_keeps_lastRelocated:
  "\<forall>ev\<in>set evs. \<not> isRelocated ev \<Longrightarrow>
     lastRelocatedStartRef (run evs s) = lastRelocatedStartRef s \<and>
     lastRelocatedEndRef (run evs s) = lastRelocatedEndRef s"
  by (induction evs arbitrary: s) (simp_all add: step_keeps_lastRelocated)

lemma step_keeps_lastRequested:
  "lastRequestedLocationIndexRef (step ev s) = lastRequestedLocationIndexRef s"
  by (cases ev)
     (simp_all add: animationFrame_keeps goToNextPage_keeps goToPrevPage_keeps callbacks_keep
        clickHandler_keeps buildChapterIndex_keeps relocated_keeps)

lemma run_keeps_lastRequested:
  "lastRequestedLocationIndexRef (run evs s) = lastRequestedLocationIndexRef s"
  by (induction evs arbitrary: s) (simp_all add: step_keeps_lastRequested)

lemma stuckDetected_currentLocation:
  "stuckDetected (s\<lparr>currentLocation := c\<rparr>) a e = stuckDetected s a e"
  by (simp add: stuckDetected_def)

lemma relocated_stuck_iff:
  "RELOCATED_STUCK_DETECTED \<in> set (snd (relocated b loc s)) \<longleftrightarrow>
     locationsLength b > 0 \<and> (\<exists>a e. resolvedRange b loc = Some (a, e) \<and> stuckDetected s a e)"
  by (auto simp add: relocated_def resolvedRange_def relocatedPage_def Let_def case_prod_beta
        relocatedRange_stuck stuckDetected_currentLocation split: option.splits outcome.splits)

lemma relocated_lastRelocated:
  assumes "locationsLength b > 0" and "resolvedRange b loc = Some (a, e)"
  shows "lastRelocatedStartRef (fst (relocated b loc s)) = a"
    and "lastRelocatedEndRef (fst (relocated b loc s)) = e"
  using relocated_processed [OF assms, of s] by (auto simp add: relocatedRange_lastRelocated)

lemma relocated_pending:
  assumes "frameQueueOk s" and "locationsLength b > 0"
    and "resolvedRange b loc = Some (Some x, e)" and "0 \<le> x"
  shows "pendingPageRef (fst (relocated b loc s)) = Some (x + 1)"
    and "pageUpdateScheduledRef (fst (relocated b loc s))"
proof -
  have ok: "frameQueueOk (s\<lparr>currentLocation := c\<rparr>)" for c
    using assms(1) by (simp add: frameQueueOk_def)
  from relocated_processed [OF assms(2,3), of s] obtain st where
    st: "fst (relocated b loc s) = fst (relocatedRange st (Some x) e (s\<lparr>currentLocation := cfi st\<rparr>))"
    by blast
  show "pendingPageRef (fst (relocated b loc s)) = Some (x + 1)"
    and "pageUpdateScheduledRef (fst (relocated b loc s))"
    using relocatedRange_pending [OF ok [of "cfi st"] assms(4), where st = st and e = e]
    by (simp_all add: st)
qed

lemma relocated_painted:
  assumes "frameQueueOk s" and "locationsLength b > 0"
    and "resolvedRange b loc = Some (Some x, e)" and "0 \<le> x"
  shows "snd (animationFrame (fst (relocated b loc s))) = [x + 1]"
    and "currentPage (fst (animationFrame (fst (relocated b loc s)))) = x + 1"
  using animationFrame_pending [OF relocated_frameQueueOk [OF assms(1)]
          relocated_pending(2) [OF assms] relocated_pending(1) [OF assms]]
  by simp_all

subsection \<open>Stuck detection\<close>

text \<open>
  C1.  Take two consecutive relocation events, the first processed while the location table
  is ready, with any other events between them.  The second one logs
  \<^verbatim>\<open>RELOCATED_STUCK_DETECTED\<close> exactly when the table is ready, it resolves a start and an
  end index, both are those the first event resolved, and the last requested location index
  is set and greater than that end.  The handler then leaves \<open>currentPage\<close> as it is, and
  the page painted after it is the one painted after the first event: the start index plus
  one.  (No handler of this component assigns \<^verbatim>\<open>lastRequestedLocationIndexRef\<close>; the
  statement holds for every value the ref may have.)
\<close>

theorem stuck_detection:
  assumes ready: "locationsLength b1 > 0"
    and first: "resolvedRange b1 loc1 = Some (a1, e1)"
    and between: "\<forall>ev\<in>set evs. \<not> isRelocated ev"
    and ok: "frameQueueOk s0"
  defines "s1 \<equiv> run evs (fst (relocated b1 loc1 s0))"
  shows "(RELOCATED_STUCK_DETECTED \<in> set (snd (relocated b2 loc2 s1)) \<longleftrightarrow>
            locationsLength b2 > 0 \<and>
            (\<exists>x y r. resolvedRange b2 loc2 = Some (Some x, Some y) \<and>
                     a1 = Some x \<and> e1 = Some y \<and>
                     lastRequestedLocationIndexRef s1 = Some r \<and> y < r)) \<and>
         (RELOCATED_STUCK_DETECTED \<in> set (snd (relocated b2 loc2 s1)) \<longrightarrow>
            currentPage (fst (relocated b2 loc2 s1)) = currentPage s1 \<and>
            (\<forall>x. a1 = Some x \<and> 0 \<le> x \<longrightarrow>
               currentPage (fst (animationFrame (fst (relocated b1 loc1 s0)))) = x + 1 \<and>
               currentPage (fst (animationFrame (fst (relocated b2 loc2 s1)))) = x + 1))"
proof -
  have prev: "lastRelocatedStartRef s1 = a1" "lastRelocatedEndRef s1 = e1"
    unfolding s1_def
    using run_keeps_lastRelocated [OF between] relocated_lastRelocated [OF ready first]
    by simp_all
  have ok1: "frameQueueOk s1"
    unfolding s1_def by (rule run_frameQueueOk [OF relocated_frameQueueOk [OF ok]])
  have flag: "RELOCATED_STUCK_DETECTED \<in> set (snd (relocated b2 loc2 s1)) \<longleftrightarrow>
            locationsLength b2 > 0 \<and>
            (\<exists>x y r. resolvedRange b2 loc2 = Some (Some x, Some y) \<and>
                     a1 = Some x \<and> e1 = Some y \<and>
                     lastRequestedLocationIndexRef s1 = Some r \<and> y < r)"
    unfolding relocated_stuck_iff
    by (auto simp add: stuckDetected_def prev split: option.splits)
  have page: "currentPage (fst (animationFrame (fst (relocated b1 loc1 s0)))) = x + 1 \<and>
              currentPage (fst (animationFrame (fst (relocated b2 loc2 s1)))) = x + 1"
    if stuck: "RELOCATED_STUCK_DETECTED \<in> set (snd (relocated b2 loc2 s1))"
      and x: "a1 = Some x" "0 \<le> x" for x
  proof -
    from stuck flag x obtain y where
      r2: "locationsLength b2 > 0" "resolvedRange b2 loc2 = Some (Some x, Some y)"
      by auto
    from first x have r1: "resolvedRange b1 loc1 = Some (Some x, e1)" by simp
    show ?thesis
      using relocated_painted(2) [OF ok ready r1 x(2)]
            relocated_painted(2) [OF ok1 r2 x(2)] by simp
  qed
  have same: "currentPage (fst (relocated b2 loc2 s1)) = currentPage s1"
    by (simp add: relocated_keeps)
  from flag same page show ?thesis
    by blast
qed

theorem stuck_detection_witness:
  "RELOCATED_STUCK_DETECTED \<in>
     set (snd (relocated bookEnv (viewportEvent 55 58)
                 (run [AnimationFrame] (fst (relocated bookEnv (viewportEvent 55 58) requested60))))) \<and>
   currentPage (fst (animationFrame (fst (relocated bookEnv (viewportEvent 55 58) requested60)))) = 56 \<and>
   currentPage (fst (animationFrame (fst (relocated bookEnv (viewportEvent 55 58)
                 (run [AnimationFrame] (fst (relocated bookEnv (viewportEvent 55 58) requested60))))))) = 56"
proof -
  have ready: "locationsLength bookEnv > 0" by (simp add: bookEnv_def)
  have range: "resolvedRange bookEnv (viewportEvent 55 58) = Some (Some 55, Some 58)"
    by (simp add: resolvedRange_def viewportEvent_def bookEnv_def deriveFromCfi_def endCfi_def
          resolveStart_def resolveEnd_def)
  have between: "\<forall>ev\<in>set [AnimationFrame]. \<not> isRelocated ev" by simp
  have ok: "frameQueueOk requested60"
    by (simp add: requested60_def initialReader_def frameQueueOk_def)
  have req: "lastRequestedLocationIndexRef
               (run [AnimationFrame] (fst (relocated bookEnv (viewportEvent 55 58) requested60))) = Some 60"
    by (simp only: run_keeps_lastRequested relocated_keeps) (simp add: requested60_def initialReader_def)
  show ?thesis
    using stuck_detection [OF ready range between ok, of bookEnv "viewportEvent 55 58"] ready range req
    by simp
qed

lemma relocated_viewport:
  assumes "locationsLength b > 0" and "resolvedRange b loc = Some (a, e)"
  shows "currentStartLocationRef (fst (relocated b loc s)) =
           (case a of Some x \<Rightarrow> if 0 \<le> x then Some x else currentStartLocationRef s
                    | None \<Rightarrow> currentStartLocationRef s)"
    and "currentEndLocationRef (fst (relocated b loc s)) =
           (case e of Some x \<Rightarrow> if 0 \<le> x then Some x else currentEndLocationRef s
                    | None \<Rightarrow> currentEndLocationRef s)"
  using relocated_processed [OF assms, of s]
  by (auto simp add: relocatedRange_viewport split: option.splits)

lemma resolvedRange_viewportEvent:
  "resolvedRange bookEnv (viewportEvent a e) = Some (Some a, Some e)"
  by (simp add: resolvedRange_def viewportEvent_def bookEnv_def deriveFromCfi_def endCfi_def
        resolveStart_def resolveEnd_def Let_def)

lemma resolvedRange_startOnlyEvent:
  "resolvedRange bookEnv (startOnlyEvent a) = Some (Some a, Some a)"
  by (simp add: resolvedRange_def startOnlyEvent_def bookEnv_def deriveFromCfi_def endCfi_def
        resolveStart_def resolveEnd_def Let_def)

lemma bookEnv_ready: "locationsLength bookEnv > 0"
  by (simp add: bookEnv_def)

subsection \<open>Resolution of the indices\<close>

text \<open>
  C2, as the spec states it, fails: after a relocation to the range 55 to 58, an event that
  supplies the start index 70, no end index and no end identifier resolves the end index
  70, the event's own start, and not the end 58 of the prior range.
\<close>

theorem prior_end_not_reused_counterexample:
  "suppliedEnd (startOnlyEvent 70) = None \<and>
   deriveFromCfi bookEnv (endCfi (startOnlyEvent 70)) = Returns None \<and>
   lastRelocatedEndRef settled5558 = Some 58 \<and>
   currentEndLocationRef settled5558 = Some 58 \<and>
   lastRelocatedEndRef (fst (relocated bookEnv (startOnlyEvent 70) settled5558)) = Some 70 \<and>
   currentEndLocationRef (fst (relocated bookEnv (startOnlyEvent 70) settled5558)) = Some 70"
  by (simp add: settled5558_def
        relocated_lastRelocated [OF bookEnv_ready resolvedRange_viewportEvent]
        relocated_viewport [OF bookEnv_ready resolvedRange_viewportEvent]
        relocated_lastRelocated [OF bookEnv_ready resolvedRange_startOnlyEvent]
        relocated_viewport [OF bookEnv_ready resolvedRange_startOnlyEvent])
     (simp add: suppliedEnd_def startOnlyEvent_def endCfi_def deriveFromCfi_def)

text \<open>
  C2, amended.  For every event processed while the location table is ready, the resolved
  start index is the one the renderer supplies, else the one looked up from the start
  identifier, else null; the resolved end index is the one the renderer supplies, else the
  one looked up from the end identifier, else the event's resolved start index.  The prior
  range is not consulted.
\<close>

theorem relocation_index_resolution:
  assumes ready: "locationsLength b > 0"
    and start: "loc_start loc = Some st"
    and ds: "deriveFromCfi b (cfi st) = Returns ds"
    and de: "deriveFromCfi b (endCfi loc) = Returns de"
  shows "lastRelocatedStartRef (fst (relocated b loc s)) =
           (case location st of Some n \<Rightarrow> Some n | None \<Rightarrow> ds) \<and>
         lastRelocatedEndRef (fst (relocated b loc s)) =
           (case suppliedEnd loc of
              Some n \<Rightarrow> Some n
            | None \<Rightarrow> (case de of
                         Some n \<Rightarrow> Some n
                       | None \<Rightarrow> lastRelocatedStartRef (fst (relocated b loc s))))"
proof -
  have "resolvedRange b loc =
          Some (resolveStart st ds, resolveEnd (loc_end loc) de (resolveStart st ds))"
    using start ds de by (simp add: resolvedRange_def Let_def)
  from relocated_lastRelocated [OF ready this, of s] show ?thesis
    by (simp add: resolveStart_def resolveEnd_def suppliedEnd_def Let_def split: option.splits)
qed

theorem relocation_index_resolution_witness:
  "lastRelocatedStartRef (fst (relocated bookEnv (startOnlyEvent 70) settled5558)) = Some 70 \<and>
   lastRelocatedEndRef (fst (relocated bookEnv (startOnlyEvent 70) settled5558)) = Some 70"
proof -
  have start: "loc_start (startOnlyEvent 70) =
                 Some \<lparr>cfi = Some ''epubcfi(/6/8)'', location = Some 70, displayed = None\<rparr>"
    by (simp add: startOnlyEvent_def)
  have ds: "deriveFromCfi bookEnv
              (cfi \<lparr>cfi = Some ''epubcfi(/6/8)'', location = Some 70, displayed = None\<rparr>) = Returns None"
    by (simp add: deriveFromCfi_def bookEnv_def)
  have de: "deriveFromCfi bookEnv (endCfi (startOnlyEvent 70)) = Returns None"
    by (simp add: deriveFromCfi_def endCfi_def startOnlyEvent_def)
  show ?thesis
    using relocation_index_resolution [OF bookEnv_ready start ds de, of settled5558]
    by (simp add: suppliedEnd_def startOnlyEvent_def)
qed

subsection \<open>Exceptions in the relocated handler\<close>

text \<open>
  C9, as the spec states it, fails: when the lookup of the end identifier throws, the
  current location has already been set to the event's start identifier.
\<close>

theorem relocation_exception_counterexample:
  "relocatedThrows bookEnv brokenEndEvent \<and>
   currentLocation initialReader = Some [] \<and>
   currentLocation (fst (relocated bookEnv brokenEndEvent initialReader)) = Some ''epubcfi(/6/8)''"
proof -
  have t: "relocatedThrows bookEnv brokenEndEvent"
    by (simp add: relocatedThrows_def brokenEndEvent_def bookEnv_def deriveFromCfi_def endCfi_def)
  show ?thesis
    by (simp add: t relocated_throws(1) [OF t]) (simp add: brokenEndEvent_def initialReader_def)
qed

text \<open>
  C9, amended.  The handler logs \<^verbatim>\<open>RELOCATED_EVENT_ERROR\<close> exactly when the processing
  of the event throws, and then it returns, with that stage logged last.  If the exception
  comes from a missing \<^verbatim>\<open>loc.start\<close> the state is unchanged; otherwise the state is
  unchanged but for the current location, which is the event's start identifier.
\<close>

theorem relocation_exception_contained:
  "(RELOCATED_EVENT_ERROR \<in> set (snd (relocated b loc s)) \<longleftrightarrow> relocatedThrows b loc) \<and>
   (relocatedThrows b loc \<longrightarrow>
      snd (relocated b loc s) \<noteq> [] \<and>
      last (snd (relocated b loc s)) = RELOCATED_EVENT_ERROR \<and>
      fst (relocated b loc s) =
        (case loc_start loc of None \<Rightarrow> s | Some st \<Rightarrow> s\<lparr>currentLocation := cfi st\<rparr>))"
proof (cases "relocatedThrows b loc")
  case True
  from relocated_throws [OF True, of s] True show ?thesis
    by (metis last_in_set)
next
  case False
  from relocated_returns [OF False, of s] False show ?thesis
    by simp
qed

theorem relocation_exception_contained_witness:
  "last (snd (relocated bookEnv brokenEndEvent initialReader)) = RELOCATED_EVENT_ERROR \<and>
   fst (relocated bookEnv brokenEndEvent initialReader) =
     initialReader\<lparr>currentLocation := Some ''epubcfi(/6/8)''\<rparr>"
proof -
  have t: "relocatedThrows bookEnv brokenEndEvent"
    by (simp add: relocatedThrows_def brokenEndEvent_def bookEnv_def deriveFromCfi_def endCfi_def)
  show ?thesis
    using relocation_exception_contained [of bookEnv brokenEndEvent initialReader] t
    by (simp add: brokenEndEvent_def)
qed

subsection \<open>Chapter progress\<close>

lemma relocated_progress:
  assumes "locationsLength b > 0" and "resolvedRange b loc = Some (Some i, e)"
    and "chapterLocationsRef s \<noteq> []"
  shows "pagesLeftInChapter (fst (relocated b loc s)) =
           (case findChapter (chapterLocationsRef s) i of
              Some c \<Rightarrow> Some (max 0 (endLocationIndex c - i))
            | None \<Rightarrow> None)"
    and "currentChapterName (fst (relocated b loc s)) =
           (case findChapter (chapterLocationsRef s) i of
              Some c \<Rightarrow> label c
            | None \<Rightarrow> [])"
proof -
  from relocated_processed [OF assms(1,2), of s] obtain st where
    st: "fst (relocated b loc s) = fst (relocatedRange st (Some i) e (s\<lparr>currentLocation := cfi st\<rparr>))"
    by blast
  have ne: "chapterLocationsRef (s\<lparr>currentLocation := cfi st\<rparr>) \<noteq> []"
    using assms(3) by simp
  show "pagesLeftInChapter (fst (relocated b loc s)) =
           (case findChapter (chapterLocationsRef s) i of
              Some c \<Rightarrow> Some (max 0 (endLocationIndex c - i))
            | None \<Rightarrow> None)"
    and "currentChapterName (fst (relocated b loc s)) =
           (case findChapter (chapterLocationsRef s) i of
              Some c \<Rightarrow> label c
            | None \<Rightarrow> [])"
    using relocatedRange_progress [OF ne, of st i e] by (simp_all add: st)
qed

lemma relocated_progress_unchanged:
  assumes "locationsLength b > 0" and "resolvedRange b loc = Some (a, e)"
    and "chapterLocationsRef s = [] \<or> a = None"
  shows "pagesLeftInChapter (fst (relocated b loc s)) = pagesLeftInChapter s"
    and "currentChapterName (fst (relocated b loc s)) = currentChapterName s"
proof -
  from relocated_processed [OF assms(1,2), of s] obtain st where
    st: "fst (relocated b loc s) = fst (relocatedRange st a e (s\<lparr>currentLocation := cfi st\<rparr>))"
    by blast
  have ne: "chapterLocationsRef (s\<lparr>currentLocation := cfi st\<rparr>) = [] \<or> a = None"
    using assms(3) by simp
  show "pagesLeftInChapter (fst (relocated b loc s)) = pagesLeftInChapter s"
    and "currentChapterName (fst (relocated b loc s)) = currentChapterName s"
    using relocatedRange_progress_unchanged [OF ne, of st e] by (simp_all add: st)
qed

lemma findChapter_inRange:
  "findChapter cs i = Some c \<Longrightarrow> inRange i c"
  by (induction cs) (auto simp add: inRange_def split: if_splits)

lemma findChapter_first:
  "findChapter cs i = Some c \<Longrightarrow>
     \<exists>k<length cs. cs ! k = c \<and> inRange i c \<and> (\<forall>j<k. \<not> inRange i (cs ! j))"
proof (induction cs)
  case Nil
  then show ?case by simp
next
  case (Cons d ds)
  show ?case
  proof (cases "inRange i d")
    case True
    with Cons.prems have "d = c" by (auto simp add: inRange_def split: if_splits)
    with True show ?thesis by (intro exI [of _ 0]) simp
  next
    case False
    with Cons.prems have "findChapter ds i = Some c"
      by (auto simp add: inRange_def split: if_splits)
    from Cons.IH [OF this] obtain k where
      k: "k < length ds" "ds ! k = c" "inRange i c" "\<forall>j<k. \<not> inRange i (ds ! j)"
      by blast
    have "\<forall>j<Suc k. \<not> inRange i ((d # ds) ! j)"
      using False k(4) by (auto simp add: less_Suc_eq_0_disj)
    with k show ?thesis by (intro exI [of _ "Suc k"]) simp
  qed
qed

lemma findChapter_None:
  "findChapter cs i = None \<longleftrightarrow> (\<forall>c\<in>set cs. \<not> inRange i c)"
  by (induction cs) (auto simp add: inRange_def)

lemma relocated_chapterStateOk:
  assumes "chapterStateOk s"
  shows "chapterStateOk (fst (relocated b loc s))"
proof -
  consider (throws) "relocatedThrows b loc"
    | (notready) st where "loc_start loc = Some st" "\<not> locationsLength b > 0"
    | (processed) a e where "locationsLength b > 0" "resolvedRange b loc = Some (a, e)"
    using relocated_cases [of b loc] by blast
  then show ?thesis
  proof cases
    case throws
    with assms show ?thesis
      by (simp add: relocated_throws(1) chapterStateOk_def split: option.splits)
  next
    case notready
    with assms show ?thesis
      by (simp add: relocated_not_ready chapterStateOk_def)
  next
    case processed
    show ?thesis
    proof (cases "chapterLocationsRef s = []")
      case True
      with assms relocated_progress_unchanged [OF processed, of s] show ?thesis
        by (simp add: chapterStateOk_def relocated_keeps)
    next
      case False
      then show ?thesis by (simp add: chapterStateOk_def relocated_keeps)
    qed
  qed
qed

text \<open>
  C10.  For every relocation event processed with a non-empty chapter table, for which a
  start index is resolved, the chapter progress the handler publishes is null, when no
  range contains the index, or a number that is not negative: the difference between the
  end of the first containing range and the index, clamped below by 0.
\<close>

theorem chapter_progress_nonneg:
  assumes ready: "locationsLength b > 0"
    and range: "resolvedRange b loc = Some (Some i, e)"
    and table: "chapterLocationsRef s \<noteq> []"
  shows "(case pagesLeftInChapter (fst (relocated b loc s)) of
            None \<Rightarrow> findChapter (chapterLocationsRef s) i = None
          | Some n \<Rightarrow> 0 \<le> n \<and>
              (\<exists>c. findChapter (chapterLocationsRef s) i = Some c \<and>
                   n = max 0 (endLocationIndex c - i)))"
proof (cases "findChapter (chapterLocationsRef s) i")
  case None
  with relocated_progress(1) [OF ready range table] show ?thesis
    by simp
next
  case (Some c)
  with relocated_progress(1) [OF ready range table]
  have "pagesLeftInChapter (fst (relocated b loc s)) = Some (max 0 (endLocationIndex c - i))"
    by simp
  moreover have "0 \<le> max 0 (endLocationIndex c - i)"
    by simp
  ultimately show ?thesis
    using Some by simp
qed

theorem chapter_progress_nonneg_witness:
  "pagesLeftInChapter (fst (relocated bookEnv (viewportEvent 10 12) twoChapters)) = Some 39"
proof -
  have table: "chapterLocationsRef twoChapters \<noteq> []"
    by (simp add: twoChapters_def)
  show ?thesis
    using chapter_progress_nonneg [OF bookEnv_ready resolvedRange_viewportEvent table, of 10 12]
    by (simp add: twoChapters_def split: option.splits)
qed

text \<open>
  C7.  For every relocation event processed while the location table is ready, for which
  a start index is resolved: if some range of the chapter table contains the index, the
  handler takes the first such range in the order of the table and publishes its label
  and, as the pages left, its end index minus the start index (which is not negative, and
  0 at the last index of the range); if no range contains it, the pages left are null and
  the label is empty.  The reader is one in which nothing has been published while the
  table was empty, as initially.
\<close>

theorem chapter_lookup_progress:
  assumes ready: "locationsLength b > 0"
    and range: "resolvedRange b loc = Some (Some i, e)"
    and inv: "chapterStateOk s"
  shows "(case findChapter (chapterLocationsRef s) i of
            Some c \<Rightarrow>
              (\<exists>k<length (chapterLocationsRef s).
                  chapterLocationsRef s ! k = c \<and> inRange i c \<and>
                  (\<forall>j<k. \<not> inRange i (chapterLocationsRef s ! j))) \<and>
              pagesLeftInChapter (fst (relocated b loc s)) = Some (endLocationIndex c - i) \<and>
              0 \<le> endLocationIndex c - i \<and>
              currentChapterName (fst (relocated b loc s)) = label c
          | None \<Rightarrow>
              (\<forall>c\<in>set (chapterLocationsRef s). \<not> inRange i c) \<and>
              pagesLeftInChapter (fst (relocated b loc s)) = None \<and>
              currentChapterName (fst (relocated b loc s)) = [])"
proof (cases "findChapter (chapterLocationsRef s) i")
  case None
  show ?thesis
  proof (cases "chapterLocationsRef s = []")
    case True
    with inv None relocated_progress_unchanged [OF ready range, of s] show ?thesis
      by (simp add: chapterStateOk_def)
  next
    case False
    with None relocated_progress [OF ready range False] show ?thesis
      by (simp add: findChapter_None [symmetric])
  qed
next
  case (Some c)
  then have ne: "chapterLocationsRef s \<noteq> []" by auto
  have "inRange i c" using Some by (rule findChapter_inRange)
  then have le: "0 \<le> endLocationIndex c - i" by (simp add: inRange_def)
  from Some findChapter_first [OF Some] relocated_progress [OF ready range ne] le
  show ?thesis by simp
qed

theorem chapter_lookup_progress_witness:
  "pagesLeftInChapter (fst (relocated bookEnv (viewportEvent 49 49) twoChapters)) = Some 0 \<and>
   currentChapterName (fst (relocated bookEnv (viewportEvent 49 49) twoChapters)) = ''Ch1'' \<and>
   pagesLeftInChapter (fst (relocated bookEnv (viewportEvent 50 51)
     (fst (relocated bookEnv (viewportEvent 49 49) twoChapters)))) = Some 49 \<and>
   currentChapterName (fst (relocated bookEnv (viewportEvent 50 51)
     (fst (relocated bookEnv (viewportEvent 49 49) twoChapters)))) = ''Ch2''"
proof -
  have inv: "chapterStateOk twoChapters"
    by (simp add: chapterStateOk_def twoChapters_def)
  have inv': "chapterStateOk (fst (relocated bookEnv (viewportEvent 49 49) twoChapters))"
    using inv by (rule relocated_chapterStateOk)
  have table: "chapterLocationsRef (fst (relocated bookEnv (viewportEvent 49 49) twoChapters)) =
                 chapterLocationsRef twoChapters"
    by (simp add: relocated_keeps)
  show ?thesis
    using chapter_lookup_progress [OF bookEnv_ready resolvedRange_viewportEvent inv, of 49 49]
      chapter_lookup_progress [OF bookEnv_ready resolvedRange_viewportEvent inv', of 50 51]
    by (simp add: table) (simp add: twoChapters_def)
qed

subsection \<open>Coalescing of page updates\<close>

lemma run_append: "run (xs @ ys) s = run ys (run xs s)"
  by (induction xs arbitrary: s) simp_all

lemma run_relocated_keeps:
  "currentPage (run (map (Relocated b) locs) s) = currentPage s \<and>
   chapterLocationsRef (run (map (Relocated b) locs) s) = chapterLocationsRef s"
  by (induction locs arbitrary: s) (simp_all add: relocated_keeps)

text \<open>
  C4.  Start from a reader whose frame queue matches its flag.  After any non-empty
  sequence of page numbers has been submitted, \<open>currentPage\<close> is still what it was; the
  next paint opportunity makes exactly one \<^verbatim>\<open>setCurrentPage\<close> call, with the last page
  submitted, and leaves nothing pending.  The same holds for a non-empty sequence of
  relocation events that resolve non-negative indices while the location table is ready:
  the paint applies only the page of the last event, while after each event the viewport
  refs hold that event's indices and the chapter progress is the one looked up for its
  start index.
\<close>

theorem page_update_coalescing:
  assumes ok: "frameQueueOk s"
    and pages: "ps \<noteq> []"
    and ready: "locationsLength b > 0"
    and events: "locs \<noteq> []"
    and resolved: "\<forall>loc\<in>set locs. \<exists>x y. resolvedRange b loc = Some (Some x, Some y) \<and> 0 \<le> x \<and> 0 \<le> y"
  shows "currentPage (updatePages ps s) = currentPage s \<and>
         snd (animationFrame (updatePages ps s)) = [last ps] \<and>
         currentPage (fst (animationFrame (updatePages ps s))) = last ps \<and>
         pendingPageRef (fst (animationFrame (updatePages ps s))) = None \<and>
         currentPage (run (map (Relocated b) locs) s) = currentPage s \<and>
         (\<exists>x y. resolvedRange b (last locs) = Some (Some x, Some y) \<and>
            snd (animationFrame (run (map (Relocated b) locs) s)) = [x + 1] \<and>
            currentPage (fst (animationFrame (run (map (Relocated b) locs) s))) = x + 1) \<and>
         (\<forall>k<length locs. \<exists>x y. resolvedRange b (locs ! k) = Some (Some x, Some y) \<and>
            currentStartLocationRef (run (map (Relocated b) (take (Suc k) locs)) s) = Some x \<and>
            currentEndLocationRef (run (map (Relocated b) (take (Suc k) locs)) s) = Some y \<and>
            (if chapterLocationsRef s = [] then True
             else pagesLeftInChapter (run (map (Relocated b) (take (Suc k) locs)) s) =
                    (case findChapter (chapterLocationsRef s) x of
                       Some c \<Rightarrow> Some (max 0 (endLocationIndex c - x))
                     | None \<Rightarrow> None) \<and>
                  currentChapterName (run (map (Relocated b) (take (Suc k) locs)) s) =
                    (case findChapter (chapterLocationsRef s) x of
                       Some c \<Rightarrow> label c
                     | None \<Rightarrow> [])))"
proof -
  note upd = updatePages_effect [OF ok pages]
  have A: "currentPage (updatePages ps s) = currentPage s"
    using upd by simp
  have B: "snd (animationFrame (updatePages ps s)) = [last ps] \<and>
           currentPage (fst (animationFrame (updatePages ps s))) = last ps \<and>
           pendingPageRef (fst (animationFrame (updatePages ps s))) = None"
    using animationFrame_pending [of "updatePages ps s" "last ps"] upd by simp
  have C: "currentPage (run (map (Relocated b) locs) s) = currentPage s"
    by (simp add: run_relocated_keeps)
  have D: "\<exists>x y. resolvedRange b (last locs) = Some (Some x, Some y) \<and>
            snd (animationFrame (run (map (Relocated b) locs) s)) = [x + 1] \<and>
            currentPage (fst (animationFrame (run (map (Relocated b) locs) s))) = x + 1"
  proof -
    from events resolved obtain x y where
      r: "resolvedRange b (last locs) = Some (Some x, Some y)" and x: "0 \<le> x"
      using last_in_set by blast
    have split: "run (map (Relocated b) locs) s =
                   fst (relocated b (last locs) (run (map (Relocated b) (butlast locs)) s))"
    proof -
      have "locs = butlast locs @ [last locs]" using events by simp
      then have "run (map (Relocated b) locs) s =
                   run (map (Relocated b) (butlast locs) @ [Relocated b (last locs)]) s"
        by (metis list.simps(8,9) map_append)
      then show ?thesis by (simp add: run_append)
    qed
    have okp: "frameQueueOk (run (map (Relocated b) (butlast locs)) s)"
      using ok by (rule run_frameQueueOk)
    from relocated_painted [OF okp ready r x] r show ?thesis
      unfolding split by blast
  qed
  have E: "\<exists>x y. resolvedRange b (locs ! k) = Some (Some x, Some y) \<and>
            currentStartLocationRef (run (map (Relocated b) (take (Suc k) locs)) s) = Some x \<and>
            currentEndLocationRef (run (map (Relocated b) (take (Suc k) locs)) s) = Some y \<and>
            (if chapterLocationsRef s = [] then True
             else pagesLeftInChapter (run (map (Relocated b) (take (Suc k) locs)) s) =
                    (case findChapter (chapterLocationsRef s) x of
                       Some c \<Rightarrow> Some (max 0 (endLocationIndex c - x))
                     | None \<Rightarrow> None) \<and>
                  currentChapterName (run (map (Relocated b) (take (Suc k) locs)) s) =
                    (case findChapter (chapterLocationsRef s) x of
                       Some c \<Rightarrow> label c
                     | None \<Rightarrow> []))"
    if k: "k < length locs" for k
  proof -
    from k resolved obtain x y where
      r: "resolvedRange b (locs ! k) = Some (Some x, Some y)" and xy: "0 \<le> x" "0 \<le> y"
      using nth_mem by blast
    define p where "p = run (map (Relocated b) (take k locs)) s"
    have split: "run (map (Relocated b) (take (Suc k) locs)) s = fst (relocated b (locs ! k) p)"
      using k by (simp add: take_Suc_conv_app_nth run_append p_def)
    have table: "chapterLocationsRef p = chapterLocationsRef s"
      by (simp add: p_def run_relocated_keeps)
    have view: "currentStartLocationRef (fst (relocated b (locs ! k) p)) = Some x"
               "currentEndLocationRef (fst (relocated b (locs ! k) p)) = Some y"
      using relocated_viewport [OF ready r, of p] xy by simp_all
    have prog: "chapterLocationsRef s \<noteq> [] \<Longrightarrow>
                pagesLeftInChapter (fst (relocated b (locs ! k) p)) =
                    (case findChapter (chapterLocationsRef s) x of
                       Some c \<Rightarrow> Some (max 0 (endLocationIndex c - x))
                     | None \<Rightarrow> None) \<and>
                currentChapterName (fst (relocated b (locs ! k) p)) =
                    (case findChapter (chapterLocationsRef s) x of
                       Some c \<Rightarrow> label c
                     | None \<Rightarrow> [])"
      using relocated_progress [OF ready r, of p] by (simp add: table)
    from r view prog show ?thesis
      unfolding split by auto
  qed
  from A B C D E show ?thesis by blast
qed

theorem page_update_coalescing_witness:
  "currentPage (updatePages [11, 12, 13] initialReader) = 1 \<and>
   snd (animationFrame (updatePages [11, 12, 13] initialReader)) = [13] \<and>
   currentPage (fst (animationFrame (updatePages [11, 12, 13] initialReader))) = 13 \<and>
   currentPage (run (map (Relocated bookEnv) [viewportEvent 49 49, viewportEvent 50 51]) twoChapters) = 1 \<and>
   snd (animationFrame (run (map (Relocated bookEnv) [viewportEvent 49 49, viewportEvent 50 51]) twoChapters)) = [51] \<and>
   currentStartLocationRef (run (map (Relocated bookEnv) (take (Suc 0) [viewportEvent 49 49, viewportEvent 50 51])) twoChapters) = Some 49 \<and>
   pagesLeftInChapter (run (map (Relocated bookEnv) (take (Suc 0) [viewportEvent 49 49, viewportEvent 50 51])) twoChapters) = Some 0"
proof -
  have ok: "frameQueueOk twoChapters" "frameQueueOk initialReader"
    by (simp_all add: frameQueueOk_def twoChapters_def initialReader_def)
  have pages: "[11, 12, 13] \<noteq> ([] :: int list)" by simp
  have events: "[viewportEvent 49 49, viewportEvent 50 51] \<noteq> []" by simp
  have resolved: "\<forall>loc\<in>set [viewportEvent 49 49, viewportEvent 50 51].
                    \<exists>x y. resolvedRange bookEnv loc = Some (Some x, Some y) \<and> 0 \<le> x \<and> 0 \<le> y"
    by (simp add: resolvedRange_viewportEvent)
  have tail: "last [viewportEvent 49 49, viewportEvent 50 51] = viewportEvent 50 51" by simp
  have head: "[viewportEvent 49 49, viewportEvent 50 51] ! 0 = viewportEvent 49 49" by simp
  from page_update_coalescing [OF ok(2) pages bookEnv_ready events resolved]
  have one: "currentPage (updatePages [11, 12, 13] initialReader) = currentPage initialReader \<and>
             snd (animationFrame (updatePages [11, 12, 13] initialReader)) = [13] \<and>
             currentPage (fst (animationFrame (updatePages [11, 12, 13] initialReader))) = 13"
    by simp
  from page_update_coalescing [OF ok(1) pages bookEnv_ready events resolved]
  have two: "currentPage (run (map (Relocated bookEnv) [viewportEvent 49 49, viewportEvent 50 51]) twoChapters) = currentPage twoChapters"
    and three: "\<exists>x y. resolvedRange bookEnv (viewportEvent 50 51) = Some (Some x, Some y) \<and>
            snd (animationFrame (run (map (Relocated bookEnv) [viewportEvent 49 49, viewportEvent 50 51]) twoChapters)) = [x + 1]"
    and four: "\<forall>k<length [viewportEvent 49 49, viewportEvent 50 51].
          \<exists>x y. resolvedRange bookEnv ([viewportEvent 49 49, viewportEvent 50 51] ! k) = Some (Some x, Some y) \<and>
            currentStartLocationRef (run (map (Relocated bookEnv) (take (Suc k) [viewportEvent 49 49, viewportEvent 50 51])) twoChapters) = Some x \<and>
            currentEndLocationRef (run (map (Relocated bookEnv) (take (Suc k) [viewportEvent 49 49, viewportEvent 50 51])) twoChapters) = Some y \<and>
            (if chapterLocationsRef twoChapters = [] then True
             else pagesLeftInChapter (run (map (Relocated bookEnv) (take (Suc k) [viewportEvent 49 49, viewportEvent 50 51])) twoChapters) =
                    (case findChapter (chapterLocationsRef twoChapters) x of
                       Some c \<Rightarrow> Some (max 0 (endLocationIndex c - x))
                     | None \<Rightarrow> None) \<and>
                  currentChapterName (run (map (Relocated bookEnv) (take (Suc k) [viewportEvent 49 49, viewportEvent 50 51])) twoChapters) =
                    (case findChapter (chapterLocationsRef twoChapters) x of
                       Some c \<Rightarrow> label c
                     | None \<Rightarrow> []))"
    unfolding tail by blast+
  from four [rule_format, of 0]
  have five: "currentStartLocationRef (run (map (Relocated bookEnv) (take (Suc 0) [viewportEvent 49 49, viewportEvent 50 51])) twoChapters) = Some 49 \<and>
     pagesLeftInChapter (run (map (Relocated bookEnv) (take (Suc 0) [viewportEvent 49 49, viewportEvent 50 51])) twoChapters) = Some 0"
    unfolding head resolvedRange_viewportEvent by (auto simp add: twoChapters_def)
  from three have six: "snd (animationFrame (run (map (Relocated bookEnv) [viewportEvent 49 49, viewportEvent 50 51]) twoChapters)) = [51]"
    unfolding resolvedRange_viewportEvent by auto
  from one two five six show ?thesis
    by (simp add: initialReader_def twoChapters_def)
qed

subsection \<open>Advancing within a section\<close>

lemma inSection_fields:
  "renditionRef inSection" "viewTransform inSection = Some 0"
  "sectionPageRef inSection = 1" "sectionTotalPagesRef inSection = 3"
  "sectionStartGlobalPageRef inSection = 10" "containerWidthRef inSection = 400"
  "frameQueueOk inSection"
  by (simp_all add: inSection_def initialReader_def sectionOf3_def bookEnv_def relocated_def
        relocatedPage_def relocatedRange_def deriveFromCfi_def endCfi_def resolveStart_def
        resolveEnd_def stuckDetected_def syncSection_def syncViewport_def submitPage_def
        chapterProgress_def updatePageNonBlocking_def frameQueueOk_def Let_def)

lemma goToNextPage_in_section:
  assumes "renditionRef s" and "viewTransform s \<noteq> None"
    and "sectionPageRef s < sectionTotalPagesRef s"
  shows "snd (goToNextPage s) = None"
    and "sectionPageRef (fst (goToNextPage s)) = sectionPageRef s + 1"
    and "viewTransform (fst (goToNextPage s)) = Some (sectionPageRef s * pageWidth s)"
    and "pendingPageRef (fst (goToNextPage s)) = Some (sectionStartGlobalPageRef s + sectionPageRef s)"
    and "renditionRef (fst (goToNextPage s))"
    and "viewTransform (fst (goToNextPage s)) \<noteq> None"
    and "sectionTotalPagesRef (fst (goToNextPage s)) = sectionTotalPagesRef s"
    and "sectionStartGlobalPageRef (fst (goToNextPage s)) = sectionStartGlobalPageRef s"
    and "currentPage (fst (goToNextPage s)) = currentPage s"
  using assms
  by (auto simp add: goToNextPage_def applyPageTransform_def updatePageNonBlocking_def Let_def)

lemma goToNextPage_scheduled:
  assumes "renditionRef s" and "sectionPageRef s < sectionTotalPagesRef s" and "frameQueueOk s"
  shows "frameQueueOk (fst (goToNextPage s))"
    and "pageUpdateScheduledRef (fst (goToNextPage s))"
  using assms
  by (simp_all add: goToNextPage_def Let_def updatePageNonBlocking_effect applyPageTransform_keeps)

lemma goToNextPageTimes_in_section:
  assumes "renditionRef s" and "viewTransform s \<noteq> None"
    and "sectionPageRef s + int n \<le> sectionTotalPagesRef s"
    and "frameQueueOk s"
  shows "sectionPageRef (goToNextPageTimes n s) = sectionPageRef s + int n \<and>
         frameQueueOk (goToNextPageTimes n s) \<and>
         (if n = 0 then True
          else pageUpdateScheduledRef (goToNextPageTimes n s) \<and>
               pendingPageRef (goToNextPageTimes n s) =
                 Some (sectionStartGlobalPageRef s + (sectionPageRef s + int n - 1)))"
  using assms
proof (induction n arbitrary: s)
  case 0
  then show ?case by simp
next
  case (Suc n)
  have lt: "sectionPageRef s < sectionTotalPagesRef s"
    using Suc.prems(3) by simp
  note one = goToNextPage_in_section [OF Suc.prems(1,2) lt]
  note sch = goToNextPage_scheduled [OF Suc.prems(1) lt Suc.prems(4)]
  have room: "sectionPageRef (fst (goToNextPage s)) + int n \<le> sectionTotalPagesRef (fst (goToNextPage s))"
    using Suc.prems(3) by (simp add: one)
  from Suc.IH [OF one(5) one(6) room sch(1)] show ?case
    by (cases "n = 0") (simp_all add: one sch)
qed

text \<open>
  C5, as the spec states it, fails: while the surface has no view, a call with
  \<open>sectionPage < sectionTotalPages\<close> leaves \<open>sectionPage\<close> as it is, and a second call
  submits the same page number as the first.
\<close>

theorem advance_without_view_counterexample:
  "renditionRef betweenViews \<and>
   sectionPageRef betweenViews = 1 \<and> sectionTotalPagesRef betweenViews = 3 \<and>
   sectionPageRef (fst (goToNextPage betweenViews)) = 1 \<and>
   sectionPageRef (fst (goToNextPage (fst (goToNextPage betweenViews)))) = 1 \<and>
   pendingPageRef (fst (goToNextPage betweenViews)) = Some 11 \<and>
   pendingPageRef (fst (goToNextPage (fst (goToNextPage betweenViews)))) = Some 11"
  by (simp add: betweenViews_def goToNextPage_def applyPageTransform_def updatePageNonBlocking_def
        inSection_fields Let_def)

text \<open>
  C5, amended.  While the rendition and the document of its view are there: a call with
  \<open>sectionPage < sectionTotalPages\<close> issues no renderer command, increments
  \<open>sectionPage\<close> by one, sets the offset \<open>(sectionPage - 1) * pageWidth\<close> for the new
  page, and submits the page \<open>sectionStartGlobalPage + (sectionPage - 1)\<close>, which the next
  paint shows; a run of calls that stays within the section adds one to the page shown with
  each call.  Otherwise the call changes nothing and issues the renderer's next command,
  and the callback run at its completion leaves \<open>sectionPage = 1\<close>.
\<close>

theorem transform_advance:
  assumes rendition: "renditionRef s"
    and view: "viewTransform s \<noteq> None"
    and ok: "frameQueueOk s"
  shows "(if sectionPageRef s < sectionTotalPagesRef s then
            snd (goToNextPage s) = None \<and>
            sectionPageRef (fst (goToNextPage s)) = sectionPageRef s + 1 \<and>
            viewTransform (fst (goToNextPage s)) =
              Some ((sectionPageRef (fst (goToNextPage s)) - 1) * pageWidth s) \<and>
            pendingPageRef (fst (goToNextPage s)) =
              Some (sectionStartGlobalPageRef s + (sectionPageRef (fst (goToNextPage s)) - 1)) \<and>
            currentPage (fst (animationFrame (fst (goToNextPage s)))) =
              sectionStartGlobalPageRef s + (sectionPageRef (fst (goToNextPage s)) - 1)
          else goToNextPage s = (s, Some RenditionNext)) \<and>
         sectionPageRef (nextResolved t) = 1 \<and>
         (if sectionPageRef s + int (Suc n) \<le> sectionTotalPagesRef s then
            sectionPageRef (goToNextPageTimes (Suc n) s) = sectionPageRef s + int (Suc n) \<and>
            currentPage (fst (animationFrame (goToNextPageTimes (Suc n) s))) =
              sectionStartGlobalPageRef s + (sectionPageRef (goToNextPageTimes (Suc n) s) - 1) \<and>
            (if n = 0 then True
             else currentPage (fst (animationFrame (goToNextPageTimes (Suc n) s))) =
                  currentPage (fst (animationFrame (goToNextPageTimes n s))) + 1)
          else True)"
proof -
  have A: "snd (goToNextPage s) = None \<and>
            sectionPageRef (fst (goToNextPage s)) = sectionPageRef s + 1 \<and>
            viewTransform (fst (goToNextPage s)) =
              Some ((sectionPageRef (fst (goToNextPage s)) - 1) * pageWidth s) \<and>
            pendingPageRef (fst (goToNextPage s)) =
              Some (sectionStartGlobalPageRef s + (sectionPageRef (fst (goToNextPage s)) - 1)) \<and>
            currentPage (fst (animationFrame (fst (goToNextPage s)))) =
              sectionStartGlobalPageRef s + (sectionPageRef (fst (goToNextPage s)) - 1)"
    if lt: "sectionPageRef s < sectionTotalPagesRef s"
  proof -
    note one = goToNextPage_in_section [OF rendition view lt]
    note sch = goToNextPage_scheduled [OF rendition lt ok]
    from animationFrame_pending [OF sch one(4)] one show ?thesis by simp
  qed
  have B: "goToNextPage s = (s, Some RenditionNext)"
    if "\<not> sectionPageRef s < sectionTotalPagesRef s"
    using that rendition by (simp add: goToNextPage_def Let_def)
  have C: "sectionPageRef (nextResolved t) = 1"
    by (simp add: nextResolved_def applyPageTransform_def Let_def split: option.splits)
  have D: "sectionPageRef (goToNextPageTimes (Suc n) s) = sectionPageRef s + int (Suc n) \<and>
            currentPage (fst (animationFrame (goToNextPageTimes (Suc n) s))) =
              sectionStartGlobalPageRef s + (sectionPageRef (goToNextPageTimes (Suc n) s) - 1) \<and>
            (if n = 0 then True
             else currentPage (fst (animationFrame (goToNextPageTimes (Suc n) s))) =
                  currentPage (fst (animationFrame (goToNextPageTimes n s))) + 1)"
    if room: "sectionPageRef s + int (Suc n) \<le> sectionTotalPagesRef s"
  proof -
    from goToNextPageTimes_in_section [OF rendition view room ok]
    have last: "sectionPageRef (goToNextPageTimes (Suc n) s) = sectionPageRef s + int (Suc n)"
      "frameQueueOk (goToNextPageTimes (Suc n) s)"
      "pageUpdateScheduledRef (goToNextPageTimes (Suc n) s)"
      "pendingPageRef (goToNextPageTimes (Suc n) s) =
         Some (sectionStartGlobalPageRef s + (sectionPageRef s + int (Suc n) - 1))"
      by (simp_all del: goToNextPageTimes.simps)
    have page: "currentPage (fst (animationFrame (goToNextPageTimes (Suc n) s))) =
                  sectionStartGlobalPageRef s + (sectionPageRef s + int (Suc n) - 1)"
      using animationFrame_pending [OF last(2,3,4)] by (simp del: goToNextPageTimes.simps)
    have prev: "currentPage (fst (animationFrame (goToNextPageTimes n s))) =
                  sectionStartGlobalPageRef s + (sectionPageRef s + int n - 1)"
      if "n \<noteq> 0"
    proof -
      have room': "sectionPageRef s + int n \<le> sectionTotalPagesRef s"
        using room by simp
      from goToNextPageTimes_in_section [OF rendition view room' ok] that
      have "frameQueueOk (goToNextPageTimes n s)"
        "pageUpdateScheduledRef (goToNextPageTimes n s)"
        "pendingPageRef (goToNextPageTimes n s) =
           Some (sectionStartGlobalPageRef s + (sectionPageRef s + int n - 1))"
        by simp_all
      from animationFrame_pending [OF this] show ?thesis by simp
    qed
    from last(1) page prev show ?thesis by (simp del: goToNextPageTimes.simps)
  qed
  show ?thesis
  proof (intro conjI)
    show "if sectionPageRef s < sectionTotalPagesRef s then
            snd (goToNextPage s) = None \<and>
            sectionPageRef (fst (goToNextPage s)) = sectionPageRef s + 1 \<and>
            viewTransform (fst (goToNextPage s)) =
              Some ((sectionPageRef (fst (goToNextPage s)) - 1) * pageWidth s) \<and>
            pendingPageRef (fst (goToNextPage s)) =
              Some (sectionStartGlobalPageRef s + (sectionPageRef (fst (goToNextPage s)) - 1)) \<and>
            currentPage (fst (animationFrame (fst (goToNextPage s)))) =
              sectionStartGlobalPageRef s + (sectionPageRef (fst (goToNextPage s)) - 1)
          else goToNextPage s = (s, Some RenditionNext)"
    proof (cases "sectionPageRef s < sectionTotalPagesRef s")
      case True
      from A [OF True] show ?thesis unfolding if_P [OF True] .
    next
      case False
      from B [OF False] show ?thesis unfolding if_not_P [OF False] .
    qed
    show "sectionPageRef (nextResolved t) = 1" by (rule C)
    show "if sectionPageRef s + int (Suc n) \<le> sectionTotalPagesRef s then
            sectionPageRef (goToNextPageTimes (Suc n) s) = sectionPageRef s + int (Suc n) \<and>
            currentPage (fst (animationFrame (goToNextPageTimes (Suc n) s))) =
              sectionStartGlobalPageRef s + (sectionPageRef (goToNextPageTimes (Suc n) s) - 1) \<and>
            (if n = 0 then True
             else currentPage (fst (animationFrame (goToNextPageTimes (Suc n) s))) =
                  currentPage (fst (animationFrame (goToNextPageTimes n s))) + 1)
          else True"
    proof (cases "sectionPageRef s + int (Suc n) \<le> sectionTotalPagesRef s")
      case True
      from D [OF True] show ?thesis unfolding if_P [OF True] .
    next
      case False
      show ?thesis unfolding if_not_P [OF False] ..
    qed
  qed
qed

theorem transform_advance_witness:
  "sectionPageRef (fst (goToNextPage inSection)) = 2 \<and>
   viewTransform (fst (goToNextPage inSection)) = Some 400 \<and>
   currentPage (fst (animationFrame (fst (goToNextPage inSection)))) = 11 \<and>
   sectionPageRef (goToNextPageTimes (Suc (Suc 0)) inSection) = 3 \<and>
   currentPage (fst (animationFrame (goToNextPageTimes (Suc (Suc 0)) inSection))) = 12"
proof -
  have view: "viewTransform inSection \<noteq> None" by (simp add: inSection_fields)
  from transform_advance [OF inSection_fields(1) view inSection_fields(7), where n = "Suc 0"]
  show ?thesis
    by (simp add: inSection_fields pageWidth_def del: goToNextPageTimes.simps)
qed

subsection \<open>Debounce of tap navigation\<close>

lemma accepted_iff:
  "accepted e s \<longleftrightarrow>
     \<not> onLink e \<and> \<not> isChatOpenRef s \<and> selectionText e = [] \<and>
     200 \<le> now e - lastNavigationTimeRef s \<and> \<not> isNavigatingRef s \<and> \<not> centerTap e"
  by (auto simp add: accepted_def clickHandler_def Let_def)

lemma clickHandler_accepted:
  "accepted e s \<Longrightarrow>
     clickHandler e s =
       (s\<lparr>lastNavigationTimeRef := now e, isNavigatingRef := True\<rparr>, Some (direction e))"
  by (simp add: accepted_iff) (simp add: clickHandler_def Let_def)

lemma clickHandler_dropped:
  "\<not> accepted e s \<Longrightarrow> clickHandler e s = (s, None)"
  by (auto simp add: accepted_def clickHandler_def Let_def split: if_splits)

lemma step_lastNavigationTime_mono:
  "lastNavigationTimeRef s \<le> lastNavigationTimeRef (step ev s)"
proof (cases ev)
  case (Click e)
  show ?thesis
  proof (cases "accepted e s")
    case True
    then have "200 \<le> now e - lastNavigationTimeRef s" by (simp add: accepted_iff)
    with True Click show ?thesis by (simp add: clickHandler_accepted)
  next
    case False
    with Click show ?thesis by (simp add: clickHandler_dropped)
  qed
qed (simp_all add: animationFrame_keeps goToNextPage_keeps goToPrevPage_keeps callbacks_keep
       buildChapterIndex_keeps relocated_keeps)

lemma run_lastNavigationTime_mono:
  "lastNavigationTimeRef s \<le> lastNavigationTimeRef (run evs s)"
proof (induction evs arbitrary: s)
  case Nil
  show ?case by simp
next
  case (Cons ev evs)
  have "lastNavigationTimeRef s \<le> lastNavigationTimeRef (step ev s)"
    by (rule step_lastNavigationTime_mono)
  also have "\<dots> \<le> lastNavigationTimeRef (run evs (step ev s))"
    by (rule Cons.IH)
  finally show ?case by simp
qed

lemma justNavigated_fields:
  "lastNavigationTimeRef justNavigated = 1000" "\<not> isNavigatingRef justNavigated"
  "\<not> isChatOpenRef justNavigated"
  by (simp_all add: justNavigated_def rightTap_def initialReader_def clickHandler_def
        navigationSettled_def centerTap_def percentGe_def percentLe_def Let_def)

text \<open>
  C6, as the spec states it, fails: of two side taps 50 ms apart that arrive 100 ms and
  150 ms after an accepted tap, none is accepted.
\<close>

theorem debounce_both_dropped_counterexample:
  "\<not> onLink (rightTap 1100) \<and> selectionText (rightTap 1100) = [] \<and> \<not> centerTap (rightTap 1100) \<and>
   \<not> onLink (rightTap 1150) \<and> selectionText (rightTap 1150) = [] \<and> \<not> centerTap (rightTap 1150) \<and>
   \<bar>now (rightTap 1150) - now (rightTap 1100)\<bar> < 200 \<and>
   snd (clickHandler (rightTap 1100) justNavigated) = None \<and>
   snd (clickHandler (rightTap 1150) (fst (clickHandler (rightTap 1100) justNavigated))) = None"
  by (simp add: clickHandler_def justNavigated_fields Let_def)
     (simp add: rightTap_def centerTap_def percentGe_def percentLe_def)

text \<open>
  C6, amended.  A tap is accepted exactly when it is not on a link, the chat is closed,
  no text is selected, at least 200 ms have passed since the last accepted tap, no
  navigation is in progress and the tap is outside the center zone.  An accepted tap sets
  the time of the last navigation to its own time, and a tap that comes less than 200 ms
  after it is dropped, whatever events come between the two: of two such taps at most one
  is accepted.  A tap that is not accepted changes nothing, so it does not move the
  window.
\<close>

theorem navigation_debounce:
  "(accepted e1 s \<longleftrightarrow>
      \<not> onLink e1 \<and> \<not> isChatOpenRef s \<and> selectionText e1 = [] \<and>
      200 \<le> now e1 - lastNavigationTimeRef s \<and> \<not> isNavigatingRef s \<and> \<not> centerTap e1) \<and>
   (if accepted e1 s
    then lastNavigationTimeRef (fst (clickHandler e1 s)) = now e1 \<and>
         (if now e2 - now e1 < 200
          then \<not> accepted e2 (run evs (fst (clickHandler e1 s))) \<and>
               clickHandler e2 (run evs (fst (clickHandler e1 s))) =
                 (run evs (fst (clickHandler e1 s)), None)
          else True)
    else clickHandler e1 s = (s, None))"
proof (cases "accepted e1 s")
  case True
  have last: "lastNavigationTimeRef (fst (clickHandler e1 s)) = now e1"
    using True by (simp add: clickHandler_accepted)
  have drop: "\<not> accepted e2 (run evs (fst (clickHandler e1 s))) \<and>
               clickHandler e2 (run evs (fst (clickHandler e1 s))) =
                 (run evs (fst (clickHandler e1 s)), None)"
    if near: "now e2 - now e1 < 200"
  proof -
    have "now e1 \<le> lastNavigationTimeRef (run evs (fst (clickHandler e1 s)))"
      using run_lastNavigationTime_mono [of "fst (clickHandler e1 s)" evs] last by simp
    with near have "\<not> accepted e2 (run evs (fst (clickHandler e1 s)))"
      by (simp add: accepted_iff)
    then show ?thesis by (simp add: clickHandler_dropped)
  qed
  from True last drop accepted_iff [of e1 s] show ?thesis by simp
next
  case False
  with clickHandler_dropped [OF False] accepted_iff [of e1 s] show ?thesis by simp
qed

theorem navigation_debounce_witness:
  "accepted (rightTap 1000) initialReader \<and>
   lastNavigationTimeRef (fst (clickHandler (rightTap 1000) initialReader)) = 1000 \<and>
   \<not> accepted (rightTap 1150)
       (run [NavigationSettled, Click (rightTap 1100)] (fst (clickHandler (rightTap 1000) initialReader)))"
proof -
  have a: "accepted (rightTap 1000) initialReader"
    by (simp add: accepted_iff rightTap_def initialReader_def centerTap_def percentGe_def percentLe_def)
  have near: "now (rightTap 1150) - now (rightTap 1000) < 200"
    by (simp add: rightTap_def)
  have "if accepted (rightTap 1000) initialReader
        then lastNavigationTimeRef (fst (clickHandler (rightTap 1000) initialReader)) =
               now (rightTap 1000) \<and>
             (if now (rightTap 1150) - now (rightTap 1000) < 200
              then \<not> accepted (rightTap 1150)
                     (run [NavigationSettled, Click (rightTap 1100)]
                        (fst (clickHandler (rightTap 1000) initialReader))) \<and>
                   clickHandler (rightTap 1150)
                     (run [NavigationSettled, Click (rightTap 1100)]
                        (fst (clickHandler (rightTap 1000) initialReader))) =
                     (run [NavigationSettled, Click (rightTap 1100)]
                        (fst (clickHandler (rightTap 1000) initialReader)), None)
              else True)
        else clickHandler (rightTap 1000) initialReader = (initialReader, None)"
    using navigation_debounce [of "rightTap 1000" initialReader "rightTap 1150"
            "[NavigationSettled, Click (rightTap 1100)]"]
    by (rule conjunct2)
  then have "lastNavigationTimeRef (fst (clickHandler (rightTap 1000) initialReader)) =
               now (rightTap 1000) \<and>
             \<not> accepted (rightTap 1150)
                     (run [NavigationSettled, Click (rightTap 1100)]
                        (fst (clickHandler (rightTap 1000) initialReader)))"
    unfolding if_P [OF a] if_P [OF near] by blast
  moreover have "now (rightTap 1000) = 1000" by (simp add: rightTap_def)
  ultimately show ?thesis using a by simp
qed

subsection \<open>The chapter ranges\<close>

lemma chapterEnd_value:
  "chapterEnd b t start rest = Returns v \<Longrightarrow>
     v = (case rest of
            [] \<Rightarrow> t - 1
          | nxt # _ \<Rightarrow> (case lookupOf b nxt of
                         Some n \<Rightarrow> if n > start then n - 1 else t - 1
                       | None \<Rightarrow> t - 1))"
  by (auto simp add: chapterEnd_def lookupOf_def split: list.splits option.splits outcome.splits)

lemma chapterEnd_throws:
  "chapterEnd b t start rest = Throws \<longleftrightarrow> (case rest of [] \<Rightarrow> False | nxt # _ \<Rightarrow> lookupThrows b nxt)"
  by (auto simp add: chapterEnd_def lookupThrows_def split: list.splits option.splits outcome.splits)

lemma chapterLoop_throws_iff:
  "chapterLoop b t items = Throws \<longleftrightarrow> (\<exists>item\<in>set items. lookupThrows b item)"
proof (induction items)
  case Nil
  show ?case by simp
next
  case (Cons x xs)
  show ?case
  proof (cases "spineGet b (toc_href x)")
    case None
    then show ?thesis using Cons.IH by (simp add: lookupThrows_def)
  next
    case (Some c)
    show ?thesis
    proof (cases "locationFromCfi b c")
      case Throws
      with Some show ?thesis by (simp add: lookupThrows_def)
    next
      case (Returns r)
      have nx: "\<not> lookupThrows b x" using Some Returns by (simp add: lookupThrows_def)
      show ?thesis
      proof (cases "chapterEnd b t (orZero r) xs")
        case Throws
        then have "\<exists>item\<in>set xs. lookupThrows b item"
          by (auto simp add: chapterEnd_throws split: list.splits)
        with Some Returns Throws show ?thesis by (simp add: Let_def)
      next
        case endv: (Returns v)
        show ?thesis
        proof (cases "chapterLoop b t xs")
          case Throws
          with Some Returns endv Cons.IH show ?thesis by (simp add: Let_def)
        next
          case rest: (Returns cs')
          then have "\<not> (\<exists>item\<in>set xs. lookupThrows b item)"
            using Cons.IH by simp
          with Some Returns endv rest nx show ?thesis by (simp add: Let_def)
        qed
      qed
    qed
  qed
qed

lemma chapterLoop_Cons_spine:
  assumes "chapterLoop b t (x # xs) = Returns cs" and "hasSpine b x"
  shows "\<exists>v cs'. cs = \<lparr>href = toc_href x, label = toc_label x,
                       startLocationIndex = orZero (lookupOf b x),
                       endLocationIndex = v\<rparr> # cs' \<and>
                 chapterEnd b t (orZero (lookupOf b x)) xs = Returns v \<and>
                 chapterLoop b t xs = Returns cs'"
  using assms
  by (auto simp add: hasSpine_def lookupOf_def Let_def split: option.splits outcome.splits)

lemma chapterLoop_Cons_no_spine:
  assumes "\<not> hasSpine b x"
  shows "chapterLoop b t (x # xs) = chapterLoop b t xs"
  using assms by (simp add: hasSpine_def)

lemma chapterLoop_entries:
  "chapterLoop b t items = Returns cs \<Longrightarrow>
     map href cs = map toc_href (filter (hasSpine b) items) \<and>
     map label cs = map toc_label (filter (hasSpine b) items)"
proof (induction items arbitrary: cs)
  case Nil
  then show ?case by simp
next
  case (Cons x xs)
  show ?case
  proof (cases "hasSpine b x")
    case True
    from chapterLoop_Cons_spine [OF Cons.prems True] obtain v cs' where
      "cs = \<lparr>href = toc_href x, label = toc_label x,
             startLocationIndex = orZero (lookupOf b x), endLocationIndex = v\<rparr> # cs'"
      "chapterLoop b t xs = Returns cs'"
      by blast
    with Cons.IH [of cs'] True show ?thesis by simp
  next
    case False
    have rest: "chapterLoop b t xs = Returns cs"
      using Cons.prems unfolding chapterLoop_Cons_no_spine [OF False] .
    with Cons.IH [of cs] False show ?thesis by simp
  qed
qed

lemma chapterLoop_entry:
  "chapterLoop b t items = Returns cs \<Longrightarrow> i < length items \<Longrightarrow> hasSpine b (items ! i) \<Longrightarrow>
     length (filter (hasSpine b) (take i items)) < length cs \<and>
     href (cs ! length (filter (hasSpine b) (take i items))) = toc_href (items ! i) \<and>
     label (cs ! length (filter (hasSpine b) (take i items))) = toc_label (items ! i) \<and>
     startLocationIndex (cs ! length (filter (hasSpine b) (take i items))) =
       orZero (lookupOf b (items ! i)) \<and>
     endLocationIndex (cs ! length (filter (hasSpine b) (take i items))) =
       (if Suc i < length items
        then (case lookupOf b (items ! Suc i) of
                Some n \<Rightarrow> if n > orZero (lookupOf b (items ! i)) then n - 1 else t - 1
              | None \<Rightarrow> t - 1)
        else t - 1)"
proof (induction items arbitrary: i cs)
  case Nil
  then show ?case by simp
next
  case (Cons x xs)
  show ?case
  proof (cases i)
    case 0
    with Cons.prems have sp: "hasSpine b x" by simp
    from chapterLoop_Cons_spine [OF Cons.prems(1) sp] obtain v cs' where
      cs: "cs = \<lparr>href = toc_href x, label = toc_label x,
             startLocationIndex = orZero (lookupOf b x), endLocationIndex = v\<rparr> # cs'"
      and v: "chapterEnd b t (orZero (lookupOf b x)) xs = Returns v"
      by blast
    from chapterEnd_value [OF v] 0 cs show ?thesis
      by (cases xs) (simp_all split: option.splits)
  next
    case (Suc j)
    with Cons.prems have j: "j < length xs" "hasSpine b (xs ! j)" by simp_all
    show ?thesis
    proof (cases "hasSpine b x")
      case True
      from chapterLoop_Cons_spine [OF Cons.prems(1) True] obtain v cs' where
        cs: "cs = \<lparr>href = toc_href x, label = toc_label x,
               startLocationIndex = orZero (lookupOf b x), endLocationIndex = v\<rparr> # cs'"
        and rest: "chapterLoop b t xs = Returns cs'"
        by blast
      from Cons.IH [OF rest j] Suc True cs show ?thesis by (simp split: option.splits)
    next
      case False
      have rest: "chapterLoop b t xs = Returns cs"
        using Cons.prems(1) unfolding chapterLoop_Cons_no_spine [OF False] .
      from Cons.IH [OF rest j] Suc False show ?thesis by (simp split: option.splits)
    qed
  qed
qed


lemma buildChapterIndex_returns:
  assumes "\<forall>item\<in>set (flattenToc toc). \<not> lookupThrows b item"
  shows "\<exists>cs. chapterLoop b (locationsLength b) (flattenToc toc) = Returns cs \<and>
              buildChapterIndex b toc s = (s\<lparr>chapterLocationsRef := cs\<rparr>, [CHAPTER_LOCATIONS_BUILT])"
proof (cases "chapterLoop b (locationsLength b) (flattenToc toc)")
  case Throws
  with assms show ?thesis by (simp add: chapterLoop_throws_iff)
next
  case (Returns cs)
  then show ?thesis by (simp add: buildChapterIndex_def)
qed

lemma bookEnv_lookups:
  "hasSpine bookEnv (TocItem ''ch1.xhtml'' l1 s1)"
  "hasSpine bookEnv (TocItem ''ch2.xhtml'' l2 s2)"
  "hasSpine bookEnv (TocItem ''ch3.xhtml'' l3 s3)"
  "lookupOf bookEnv (TocItem ''ch1.xhtml'' l1 s1) = Some 0"
  "lookupOf bookEnv (TocItem ''ch2.xhtml'' l2 s2) = Some 50"
  "\<not> lookupThrows bookEnv (TocItem ''ch1.xhtml'' l1 s1)"
  "\<not> lookupThrows bookEnv (TocItem ''ch2.xhtml'' l2 s2)"
  "lookupThrows bookEnv (TocItem ''ch3.xhtml'' l3 s3)"
  by (simp_all add: hasSpine_def lookupOf_def lookupThrows_def bookEnv_def)

text \<open>
  C3.  When no lookup throws, the build succeeds and assigns the table; every entry \<open>i\<close>
  of the flattened table of contents that has a spine item gets the range at the position
  \<open>k\<close> that counts the entries with a spine item before it.  The range starts at the index
  looked up for the entry (0 when the lookup gives no number).  It ends one before the index
  of entry \<open>i + 1\<close>, which is the start of the next range, when that index is above the
  start; it ends at \<open>totalLocations - 1\<close> for the last entry; and when the next entry
  gives no index above the start it ends at that same boundary \<open>totalLocations - 1\<close>, no
  error being raised.
\<close>

theorem chapter_range_construction:
  assumes nothrow: "\<forall>item\<in>set (flattenToc toc). \<not> lookupThrows b item"
    and i: "i < length (flattenToc toc)"
    and spine: "hasSpine b (flattenToc toc ! i)"
  shows "\<exists>cs k. buildChapterIndex b toc s = (s\<lparr>chapterLocationsRef := cs\<rparr>, [CHAPTER_LOCATIONS_BUILT]) \<and>
           k = length (filter (hasSpine b) (take i (flattenToc toc))) \<and>
           k < length cs \<and>
           href (cs ! k) = toc_href (flattenToc toc ! i) \<and>
           label (cs ! k) = toc_label (flattenToc toc ! i) \<and>
           startLocationIndex (cs ! k) = orZero (lookupOf b (flattenToc toc ! i)) \<and>
           endLocationIndex (cs ! k) =
             (if Suc i < length (flattenToc toc)
              then (case lookupOf b (flattenToc toc ! Suc i) of
                      Some n \<Rightarrow> if n > startLocationIndex (cs ! k) then n - 1
                                else locationsLength b - 1
                    | None \<Rightarrow> locationsLength b - 1)
              else locationsLength b - 1) \<and>
           (if Suc i < length (flattenToc toc)
            then (case lookupOf b (flattenToc toc ! Suc i) of
                    Some n \<Rightarrow> Suc k < length cs \<and> startLocationIndex (cs ! Suc k) = n
                  | None \<Rightarrow> True)
            else True)"
proof -
  define flat where "flat = flattenToc toc"
  define k where "k = length (filter (hasSpine b) (take i flat))"
  from buildChapterIndex_returns [OF nothrow, of s] obtain cs where
    loop: "chapterLoop b (locationsLength b) flat = Returns cs"
    and build: "buildChapterIndex b toc s = (s\<lparr>chapterLocationsRef := cs\<rparr>, [CHAPTER_LOCATIONS_BUILT])"
    unfolding flat_def by blast
  have i': "i < length flat" and spine': "hasSpine b (flat ! i)"
    using i spine by (simp_all add: flat_def)
  note entry = chapterLoop_entry [OF loop i' spine', folded k_def]
  have nxt: "Suc k < length cs \<and> startLocationIndex (cs ! Suc k) = n"
    if more: "Suc i < length flat" and n: "lookupOf b (flat ! Suc i) = Some n" for n
  proof -
    have sp: "hasSpine b (flat ! Suc i)"
      using n by (auto simp add: hasSpine_def lookupOf_def split: option.splits)
    have "take (Suc i) flat = take i flat @ [flat ! i]"
      using i' by (simp add: take_Suc_conv_app_nth)
    then have "length (filter (hasSpine b) (take (Suc i) flat)) = Suc k"
      using spine' by (simp add: k_def)
    with chapterLoop_entry [OF loop more sp] n show ?thesis
      by (simp add: orZero_def)
  qed
  have tail: "if Suc i < length flat
            then (case lookupOf b (flat ! Suc i) of
                    Some n \<Rightarrow> Suc k < length cs \<and> startLocationIndex (cs ! Suc k) = n
                  | None \<Rightarrow> True)
            else True"
    using nxt by (simp split: option.splits)
  from build entry tail show ?thesis
    unfolding flat_def [symmetric]
    by (intro exI [of _ cs] exI [of _ k]) (simp add: k_def split: option.splits)
qed

theorem chapter_range_construction_witness:
  "snd (buildChapterIndex bookEnv tocOfTwo initialReader) = [CHAPTER_LOCATIONS_BUILT] \<and>
   label (chapterLocationsRef (fst (buildChapterIndex bookEnv tocOfTwo initialReader)) ! 0) = ''Ch1'' \<and>
   startLocationIndex (chapterLocationsRef (fst (buildChapterIndex bookEnv tocOfTwo initialReader)) ! 0) = 0 \<and>
   endLocationIndex (chapterLocationsRef (fst (buildChapterIndex bookEnv tocOfTwo initialReader)) ! 0) = 49 \<and>
   startLocationIndex (chapterLocationsRef (fst (buildChapterIndex bookEnv tocOfTwo initialReader)) ! 1) = 50"
proof -
  have flat: "flattenToc tocOfTwo = tocOfTwo"
    by (simp add: tocOfTwo_def)
  have nothrow: "\<forall>item\<in>set (flattenToc tocOfTwo). \<not> lookupThrows bookEnv item"
    unfolding flat by (simp add: tocOfTwo_def bookEnv_lookups)
  have i: "0 < length (flattenToc tocOfTwo)"
    unfolding flat by (simp add: tocOfTwo_def)
  have spine: "hasSpine bookEnv (flattenToc tocOfTwo ! 0)"
    unfolding flat by (simp add: tocOfTwo_def bookEnv_lookups)
  from chapter_range_construction [OF nothrow i spine, of initialReader] show ?thesis
    unfolding flat by (auto simp add: tocOfTwo_def bookEnv_lookups orZero_def)
qed

text \<open>
  C8, as the spec states it, fails: when the lookup of the third entry throws, the build
  reports the error and assigns nothing, so that the first two entries, whose lookups
  succeed, get no range either.
\<close>

theorem chapter_failure_counterexample:
  "flattenToc tocOfThree =
     [TocItem ''ch1.xhtml'' ''Ch1'' [TocItem ''ch2.xhtml'' ''Ch2'' []],
      TocItem ''ch2.xhtml'' ''Ch2'' [], TocItem ''ch3.xhtml'' ''Ch3'' []] \<and>
   lookupThrows bookEnv (TocItem ''ch3.xhtml'' ''Ch3'' []) \<and>
   \<not> lookupThrows bookEnv (TocItem ''ch1.xhtml'' ''Ch1'' [TocItem ''ch2.xhtml'' ''Ch2'' []]) \<and>
   hasSpine bookEnv (TocItem ''ch1.xhtml'' ''Ch1'' [TocItem ''ch2.xhtml'' ''Ch2'' []]) \<and>
   \<not> lookupThrows bookEnv (TocItem ''ch2.xhtml'' ''Ch2'' []) \<and>
   hasSpine bookEnv (TocItem ''ch2.xhtml'' ''Ch2'' []) \<and>
   chapterLocationsRef (fst (buildChapterIndex bookEnv tocOfThree initialReader)) = [] \<and>
   snd (buildChapterIndex bookEnv tocOfThree initialReader) = [CHAPTERS_ERROR_BUILDING]"
proof -
  have "chapterLoop bookEnv (locationsLength bookEnv) (flattenToc tocOfThree) = Throws"
    unfolding chapterLoop_throws_iff by (simp add: tocOfThree_def bookEnv_lookups)
  then show ?thesis
    by (simp add: buildChapterIndex_def bookEnv_lookups)
       (simp add: tocOfThree_def initialReader_def)
qed

text \<open>
  C8, amended.  If the lookup of some entry throws, the build reports the error, which
  goes no further, and leaves the reader as it was: no entry gets a range.  Otherwise the
  build assigns the table with one range for each entry that has a spine item, in order;
  an entry without a spine item is passed over and the ranges of all the others are built.
\<close>

theorem chapter_build_failure:
  "(if \<exists>item\<in>set (flattenToc toc). lookupThrows b item
    then buildChapterIndex b toc s = (s, [CHAPTERS_ERROR_BUILDING])
    else \<exists>cs. buildChapterIndex b toc s =
                 (s\<lparr>chapterLocationsRef := cs\<rparr>, [CHAPTER_LOCATIONS_BUILT]) \<and>
               map href cs = map toc_href (filter (hasSpine b) (flattenToc toc)) \<and>
               map label cs = map toc_label (filter (hasSpine b) (flattenToc toc)))"
proof (cases "\<exists>item\<in>set (flattenToc toc). lookupThrows b item")
  case True
  then have "chapterLoop b (locationsLength b) (flattenToc toc) = Throws"
    by (simp add: chapterLoop_throws_iff)
  then have "buildChapterIndex b toc s = (s, [CHAPTERS_ERROR_BUILDING])"
    by (simp add: buildChapterIndex_def)
  then show ?thesis unfolding if_P [OF True] .
next
  case False
  then have "\<forall>item\<in>set (flattenToc toc). \<not> lookupThrows b item" by simp
  from buildChapterIndex_returns [OF this, of s] obtain cs where
    "chapterLoop b (locationsLength b) (flattenToc toc) = Returns cs"
    "buildChapterIndex b toc s = (s\<lparr>chapterLocationsRef := cs\<rparr>, [CHAPTER_LOCATIONS_BUILT])"
    by blast
  with chapterLoop_entries [of b "locationsLength b" "flattenToc toc" cs]
  have "\<exists>cs. buildChapterIndex b toc s =
                 (s\<lparr>chapterLocationsRef := cs\<rparr>, [CHAPTER_LOCATIONS_BUILT]) \<and>
               map href cs = map toc_href (filter (hasSpine b) (flattenToc toc)) \<and>
               map label cs = map toc_label (filter (hasSpine b) (flattenToc toc))"
    by blast
  then show ?thesis unfolding if_not_P [OF False] .
qed

theorem chapter_build_failure_witness:
  "buildChapterIndex bookEnv tocOfThree initialReader = (initialReader, [CHAPTERS_ERROR_BUILDING])"
proof -
  have "\<exists>item\<in>set (flattenToc tocOfThree). lookupThrows bookEnv item"
    by (simp add: tocOfThree_def bookEnv_lookups)
  with chapter_build_failure [of tocOfThree bookEnv initialReader] show ?thesis
    by simp
qed

end
